theory Spec2Isabelle
  imports Main "HOL-Library.Word"
begin

section \<open>Python values shared by both modules\<close>

text \<open>
  Exceptions are values. Every \<open>raise RuntimeError(...)\<close> of \<open>runtime.py\<close> has its own
  tag (the f-string messages are not reproduced); the other constructors are the built-in
  exceptions that the interpreter or numpy raises at the modelled statements.
\<close>

datatype runtime_error =
    SetElemUninitialized
  | SetElemOutOfBounds int nat
  | GetUninitialized
  | SetDimsOnShadow
  | ValueBeforeIteration
  | SetRanksUnknown string
  | SetRanksNonPrimary string
  | ShadowOwnerMissing string
  | TupUnknown string

datatype error =
    RuntimeError runtime_error
  | AttributeError string
  | IndexError
  | ValueError
  | TypeError
  | StopIteration
  | KeyError
  | InvalidArgumentError
  | OverflowError
  | ParseError string

section \<open>runtime.py: Shape\<close>

text \<open>
  \<open>class Shape\<close> has the single attribute \<open>dims\<close>, which is \<open>None\<close> or a list of
  integers. \<open>set\<close> coerces every entry with \<open>int(d)\<close>; the entries are integers here, on
  which \<open>int\<close> is the identity.
\<close>

record Shape =
  dims :: "int list option"

definition Shape_init :: Shape where
  "Shape_init = \<lparr>dims = None\<rparr>"

definition Shape_set :: "int list \<Rightarrow> Shape \<Rightarrow> Shape" where
  "Shape_set ds s = s\<lparr>dims := Some (map (\<lambda>d. d) ds)\<rparr>"

text \<open>
  \<open>self.dims[ind] = dim\<close> is Python list assignment: a negative index counts from the end
  and an index below \<open>-len\<close> raises IndexError. The guard of \<open>set_elem\<close> only excludes
  \<open>ind >= len\<close>.
\<close>

definition norm_index :: "nat \<Rightarrow> int \<Rightarrow> nat option" where
  "norm_index len i =
     (if 0 \<le> i \<and> i < int len then Some (nat i)
      else if i < 0 \<and> - int len \<le> i then Some (nat (int len + i))
      else None)"

definition list_setitem :: "'a list \<Rightarrow> int \<Rightarrow> 'a \<Rightarrow> error + 'a list" where
  "list_setitem xs i v =
     (case norm_index (length xs) i of
        None \<Rightarrow> Inl IndexError
      | Some j \<Rightarrow> Inr (xs[j := v]))"

definition list_getitem :: "'a list \<Rightarrow> int \<Rightarrow> error + 'a" where
  "list_getitem xs i =
     (case norm_index (length xs) i of
        None \<Rightarrow> Inl IndexError
      | Some j \<Rightarrow> Inr (xs ! j))"

definition Shape_set_elem :: "int \<Rightarrow> int \<Rightarrow> Shape \<Rightarrow> error + Shape" where
  "Shape_set_elem ind dim s =
     (case dims s of
        None \<Rightarrow> Inl (RuntimeError SetElemUninitialized)
      | Some ds \<Rightarrow>
          if ind \<ge> int (length ds) then Inl (RuntimeError (SetElemOutOfBounds ind (length ds)))
          else (case list_setitem ds ind dim of
                  Inl e \<Rightarrow> Inl e
                | Inr ds' \<Rightarrow> Inr (s\<lparr>dims := Some ds'\<rparr>)))"

definition Shape_get :: "Shape \<Rightarrow> error + int list" where
  "Shape_get s =
     (case dims s of
        None \<Rightarrow> Inl (RuntimeError GetUninitialized)
      | Some ds \<Rightarrow> Inr ds)"

section \<open>The store of Shape objects\<close>

text \<open>
  A Shape is shared by reference between a group and its shadows, so Shape objects live
  in a store: \<open>cells\<close> maps an address to the object, \<open>next_free\<close> is the next address that
  \<open>Shape()\<close> hands out. \<open>a is b\<close> on Shape objects is equality of addresses.
\<close>

type_synonym addr = nat

record store =
  cells :: "addr \<Rightarrow> Shape"
  next_free :: addr

definition empty_store :: store where
  "empty_store = \<lparr>cells = (\<lambda>_. Shape_init), next_free = 0\<rparr>"

definition new_Shape :: "store \<Rightarrow> addr \<times> store" where
  "new_Shape h = (next_free h, h\<lparr>cells := (cells h)(next_free h := Shape_init),
                                 next_free := Suc (next_free h)\<rparr>)"

section \<open>runtime.py: EinTup\<close>

text \<open>
  \<open>shadow_of\<close> is \<open>None\<close> or the owning EinTup; only its \<open>name\<close> and \<open>shape\<close>, which are
  never reassigned, are read through it. \<open>shape\<close> is the address of the Shape object.
  \<open>index\<close> is the numpy iterator created by \<open>__iter__\<close> (absent before the first call),
  kept as the list of tuples it has still to produce, and \<open>val\<close> is \<open>_value\<close>.
\<close>

datatype EinTup = EinTup
  (name: string)
  (shadow_of: "EinTup option")
  (shape: addr)
  (index: "nat list list option")
  (val: "nat list option")

definition EinTup_init :: "string \<Rightarrow> EinTup option \<Rightarrow> store \<Rightarrow> EinTup \<times> store" where
  "EinTup_init nm sh_of h =
     (case sh_of of
        None \<Rightarrow> (let (a, h') = new_Shape h in (EinTup nm None a None None, h'))
      | Some owner \<Rightarrow> (EinTup nm (Some owner) (shape owner) None None, h))"

definition primary :: "EinTup \<Rightarrow> bool" where
  "primary t = (shadow_of t = None)"

definition same_shape_as :: "EinTup \<Rightarrow> EinTup \<Rightarrow> bool" where
  "same_shape_as t other = (shape t = shape other)"

definition EinTup_dims :: "EinTup \<Rightarrow> store \<Rightarrow> error + int list" where
  "EinTup_dims t h = Shape_get (cells h (shape t))"

definition EinTup_rank :: "EinTup \<Rightarrow> store \<Rightarrow> error + nat" where
  "EinTup_rank t h = (case Shape_get (cells h (shape t)) of Inl e \<Rightarrow> Inl e | Inr ds \<Rightarrow> Inr (length ds))"

text \<open>
  \<open>np.prod(dims, dtype=np.int32)\<close> first turns the list into an array. Entries that all
  fit in 64 bits give an int64 array (a uint64 array when the largest needs the 64th bit
  and none is negative); its entries are cast to \<open>np.int32\<close> and multiplied there, in
  32-bit two's complement, and the result is an \<open>np.int32\<close>, read as a signed integer
  by \<open>sint\<close>. An entry of \<open>2^64\<close> or more, or below \<open>-2^63\<close>, fits no integer array and
  the conversion of that entry raises OverflowError; entries of \<open>2^63\<close> or more next to
  negative ones give a float64 array, which the reduction refuses to cast (TypeError).
\<close>

definition np_prod_int32 :: "int list \<Rightarrow> error + 32 word" where
  "np_prod_int32 ds =
     (if list_ex (\<lambda>d. d < - (2 ^ 63) \<or> 2 ^ 64 \<le> d) ds then Inl OverflowError
      else if list_ex (\<lambda>d. 2 ^ 63 \<le> d) ds \<and> list_ex (\<lambda>d. d < 0) ds then Inl TypeError
      else Inr (fold (\<lambda>d acc. acc * word_of_int d) ds 1))"

definition nelem :: "EinTup \<Rightarrow> store \<Rightarrow> error + 32 word" where
  "nelem t h = (case EinTup_dims t h of Inl e \<Rightarrow> Inl e | Inr ds \<Rightarrow> np_prod_int32 ds)"

text \<open>
  A raise leaves the store as it was, so the mutators return the outcome together with
  the store after the call.
\<close>

definition EinTup_set_dims :: "EinTup \<Rightarrow> int list \<Rightarrow> store \<Rightarrow> (error + unit) \<times> store" where
  "EinTup_set_dims t ds h =
     (if shadow_of t \<noteq> None then (Inl (RuntimeError SetDimsOnShadow), h)
      else (Inr (), h\<lparr>cells := (cells h)(shape t := Shape_set ds (cells h (shape t)))\<rparr>))"

definition set_dim :: "EinTup \<Rightarrow> int \<Rightarrow> int \<Rightarrow> store \<Rightarrow> (error + unit) \<times> store" where
  "set_dim t ind v h =
     (case Shape_set_elem ind v (cells h (shape t)) of
        Inl e \<Rightarrow> (Inl e, h)
      | Inr s' \<Rightarrow> (Inr (), h\<lparr>cells := (cells h)(shape t := s')\<rparr>))"

definition EinTup_value :: "EinTup \<Rightarrow> error + nat list" where
  "EinTup_value t = (case val t of None \<Rightarrow> Inl (RuntimeError ValueBeforeIteration) | Some v \<Rightarrow> Inr v)"

subsection \<open>Iteration\<close>

text \<open>
  \<open>np.ndindex(*dims)\<close> is numpy's: it refuses a negative extent with ValueError and
  otherwise produces the index tuples of an array of that shape with the last axis
  varying fastest. The list below is what it produces, in order.
\<close>

fun ndindex :: "nat list \<Rightarrow> nat list list" where
  "ndindex [] = [[]]"
| "ndindex (d # ds) = concat (map (\<lambda>i. map ((#) i) (ndindex ds)) [0..<d])"

definition np_ndindex :: "int list \<Rightarrow> error + nat list list" where
  "np_ndindex ds = (if list_ex (\<lambda>d. d < 0) ds then Inl ValueError else Inr (ndindex (map nat ds)))"

definition EinTup_iter :: "EinTup \<Rightarrow> store \<Rightarrow> error + EinTup" where
  "EinTup_iter t h =
     (case EinTup_dims t h of
        Inl e \<Rightarrow> Inl e
      | Inr ds \<Rightarrow> (case np_ndindex ds of
                    Inl e \<Rightarrow> Inl e
                  | Inr ix \<Rightarrow> Inr (EinTup (name t) (shadow_of t) (shape t) (Some ix) (val t))))"

definition EinTup_next :: "EinTup \<Rightarrow> (error + nat list) \<times> EinTup" where
  "EinTup_next t =
     (case index t of
        None \<Rightarrow> (Inl (AttributeError ''index''), t)
      | Some [] \<Rightarrow> (Inl StopIteration, t)
      | Some (v # rest) \<Rightarrow>
          (let t' = EinTup (name t) (shadow_of t) (shape t) (Some rest) (Some v)
           in (EinTup_value t', t')))"

text \<open>
  A \<open>for\<close> loop (or \<open>list(t)\<close>) over a group calls \<open>__iter__\<close> once and then \<open>__next__\<close>
  until it raises StopIteration; \<open>drain\<close> is the second part and collects what was
  produced, together with the group as the loop leaves it.
\<close>

function drain :: "EinTup \<Rightarrow> (error + nat list list) \<times> EinTup" where
  "drain t =
     (case EinTup_next t of
        (Inl e, t') \<Rightarrow> (if e = StopIteration then (Inr [], t') else (Inl e, t'))
      | (Inr v, t') \<Rightarrow>
          (case drain t' of
             (Inl e, t'') \<Rightarrow> (Inl e, t'')
           | (Inr vs, t'') \<Rightarrow> (Inr (v # vs), t'')))"
  by pat_completeness auto

termination
  by (relation "measure (\<lambda>t. case index t of None \<Rightarrow> 0 | Some ix \<Rightarrow> length ix)")
     (auto simp: EinTup_next_def Let_def split: option.splits list.splits)

declare drain.simps [simp del]

definition iterate :: "EinTup \<Rightarrow> store \<Rightarrow> (error + nat list list) \<times> EinTup" where
  "iterate t h = (case EinTup_iter t h of Inl e \<Rightarrow> (Inl e, t) | Inr t' \<Rightarrow> drain t')"

section \<open>runtime.py: Runtime\<close>

subsection \<open>Dictionaries and strings of the interpreter\<close>

text \<open>
  A \<open>dict\<close> keeps insertion order: it is a list of key-value pairs with distinct keys.
  \<open>d[k] = v\<close> replaces the value of a present key in place and appends an absent one.
\<close>

definition dict_setitem :: "('k \<times> 'v) list \<Rightarrow> 'k \<Rightarrow> 'v \<Rightarrow> ('k \<times> 'v) list" where
  "dict_setitem d k v =
     (if k \<in> set (map fst d) then map (\<lambda>kv. if fst kv = k then (k, v) else kv) d
      else d @ [(k, v)])"

definition dict_of :: "('k \<times> 'v) list \<Rightarrow> ('k \<times> 'v) list" where
  "dict_of kvs = fold (\<lambda>kv d. dict_setitem d (fst kv) (snd kv)) kvs []"

definition newline :: char where
  "newline = CHR 0x0A"

text \<open>
  Strings are byte strings. \<open>is_space\<close> is \<open>str.isspace\<close> on the ASCII range: tab to
  carriage return, the four separators, space. The white space beyond ASCII that
  \<open>str.strip\<close> removes as well (U+0085, U+00A0 and others) is not modelled.
\<close>

definition is_space :: "char \<Rightarrow> bool" where
  "is_space c = ((9 \<le> (of_char c :: nat) \<and> (of_char c :: nat) \<le> 13) \<or>
                 (28 \<le> (of_char c :: nat) \<and> (of_char c :: nat) \<le> 32))"

definition strip :: "string \<Rightarrow> string" where
  "strip s = rev (dropWhile is_space (rev (dropWhile is_space s)))"

definition replace_newline :: "string \<Rightarrow> string" where
  "replace_newline s = map (\<lambda>c. if c = newline then CHR '' '' else c) s"

text \<open>\<open>s.split('\n')\<close>: one piece more than there are newlines; \<open>''.split('\n')\<close> is \<open>['']\<close>.\<close>

fun split_newline :: "string \<Rightarrow> string list" where
  "split_newline [] = [[]]"
| "split_newline (c # cs) =
     (if c = newline then [] # split_newline cs
      else (case split_newline cs of
              [] \<Rightarrow> [[c]]
            | p # ps \<Rightarrow> (c # p) # ps))"

text \<open>
  \<open>re.split('\n\n+', s)\<close>: every maximal run of two or more newlines is one separator; a
  single newline stays inside its piece.
\<close>

function re_split_blank :: "string \<Rightarrow> string list" where
  "re_split_blank [] = [[]]"
| "re_split_blank (c # cs) =
     (if c = newline \<and> take 1 cs = [newline]
      then [] # re_split_blank (dropWhile (\<lambda>x. x = newline) cs)
      else (case re_split_blank cs of
              [] \<Rightarrow> [[c]]
            | p # ps \<Rightarrow> (c # p) # ps))"
  by pat_completeness auto

termination
  by (relation "measure length") (auto simp: le_imp_less_Suc length_dropWhile_le)

subsection \<open>The Runtime object and its collaborators\<close>

text \<open>
  The attributes of \<open>Runtime\<close>. \<open>statements\<close> and \<open>constraints\<close> start as \<open>None\<close>;
  \<open>tf_call\<close> and \<open>out_args\<close> do not exist before \<open>parse_et_file\<close> assigns them, and
  \<open>outputs\<close>, which \<open>run\<close> reads, is assigned nowhere in the class: \<open>None\<close> stands for
  an attribute that is \<open>None\<close> or missing. \<open>shapes\<close> is the store of the Shape objects of
  the groups in \<open>tups\<close>; \<open>rand\<close> and \<open>rand_pos\<close> are the state of numpy's global random
  generator, an arbitrary sequence of draws and the number consumed so far.
\<close>

record ('n, 'a, 'v) Runtime =
  tups :: "(string \<times> EinTup) list"
  array_sig :: "(string \<times> EinTup list) list"
  arrays :: "(string \<times> 'v) list"
  statements :: "'n list option"
  constraints :: "'n list option"
  tf_call :: "'n option"
  out_args :: "'a list option"
  outputs :: "'a list option"
  min_dim :: int
  max_dim :: int
  shapes :: store
  rand :: "nat \<Rightarrow> nat"
  rand_pos :: nat

datatype mode = StatementMode | TfCallMode | OutputMode | ConstraintMode

text \<open>
  The grammar (\<open>parse.BCParser\<close>) and the AST nodes it builds are not part of the two
  modules. They hold a reference to the Runtime, so each of their entry points is a
  function of the Runtime that may raise and may change it: \<open>parse\<close> in the mode set
  last (\<open>parse_output\<close> is \<open>parse\<close> in output mode, whose result is the list of output
  arguments), \<open>post_parse_init\<close> and \<open>evaluate\<close> of a node, \<open>con_value\<close> for the
  \<open>value()\<close> of a constraint node, \<open>arg_name\<close> and \<open>arg_value\<close> for \<open>name\<close> and
  \<open>value()\<close> of an output argument.
\<close>

record ('n, 'a, 'v) collaborators =
  parse :: "mode \<Rightarrow> string \<Rightarrow> ('n, 'a, 'v) Runtime \<Rightarrow> error + 'n \<times> ('n, 'a, 'v) Runtime"
  parse_output :: "string \<Rightarrow> ('n, 'a, 'v) Runtime \<Rightarrow> error + 'a list \<times> ('n, 'a, 'v) Runtime"
  post_parse_init :: "'n \<Rightarrow> ('n, 'a, 'v) Runtime \<Rightarrow> error + ('n, 'a, 'v) Runtime"
  evaluate :: "'n \<Rightarrow> ('n, 'a, 'v) Runtime \<Rightarrow> error + ('n, 'a, 'v) Runtime"
  con_value :: "'n \<Rightarrow> ('n, 'a, 'v) Runtime \<Rightarrow> error + bool"
  arg_name :: "'a \<Rightarrow> string"
  arg_value :: "'a \<Rightarrow> ('n, 'a, 'v) Runtime \<Rightarrow> error + 'v"

definition Runtime_init :: "int \<Rightarrow> int \<Rightarrow> (nat \<Rightarrow> nat) \<Rightarrow> ('n, 'a, 'v) Runtime" where
  "Runtime_init mn mx src =
     \<lparr>tups = [], array_sig = [], arrays = [], statements = None, constraints = None,
      tf_call = None, out_args = None, outputs = None, min_dim = mn, max_dim = mx,
      shapes = empty_store, rand = src, rand_pos = 0\<rparr>"

subsection \<open>Loading a specification\<close>

fun parse_each ::
  "(string \<Rightarrow> 'r \<Rightarrow> error + 'n \<times> 'r) \<Rightarrow> string list \<Rightarrow> 'r \<Rightarrow> error + 'n list \<times> 'r" where
  "parse_each f [] rt = Inr ([], rt)"
| "parse_each f (s # ss) rt =
     (case f s rt of
        Inl e \<Rightarrow> Inl e
      | Inr (n, rt1) \<Rightarrow>
          (case parse_each f ss rt1 of
             Inl e \<Rightarrow> Inl e
           | Inr (ns, rt2) \<Rightarrow> Inr (n # ns, rt2)))"

fun post_init_all ::
  "('n, 'a, 'v) collaborators \<Rightarrow> 'n list \<Rightarrow> ('n, 'a, 'v) Runtime \<Rightarrow> error + ('n, 'a, 'v) Runtime" where
  "post_init_all X [] rt = Inr rt"
| "post_init_all X (node # nodes) rt =
     (case post_parse_init X node rt of
        Inl e \<Rightarrow> Inl e
      | Inr rt1 \<Rightarrow> post_init_all X nodes rt1)"

text \<open>
  \<open>parse_et_file\<close> from the text read from the file on. The three \<open>next(sections)\<close>
  raise StopIteration when a section is missing; \<open>next(sections, '')\<close> gives the empty
  string for an absent fourth section. Each attribute is assigned when its
  comprehension or call has returned.
\<close>

definition parse_et_file ::
  "('n, 'a, 'v) collaborators \<Rightarrow> string \<Rightarrow> ('n, 'a, 'v) Runtime \<Rightarrow> error + ('n, 'a, 'v) Runtime" where
  "parse_et_file X content rt =
     (case re_split_blank (strip content) of
        st_sec # call_sec # out_sec # further \<Rightarrow>
          (let con_sec = (case further of [] \<Rightarrow> [] | c # _ \<Rightarrow> c);
               st_lines = split_newline (strip st_sec);
               call_text = strip (replace_newline call_sec);
               out_text = strip (replace_newline out_sec);
               con_lines = split_newline (strip con_sec)
           in case parse_each (parse X StatementMode) st_lines rt of
                Inl e \<Rightarrow> Inl e
              | Inr (sts, rt1) \<Rightarrow>
           (case parse X TfCallMode call_text (rt1\<lparr>statements := Some sts\<rparr>) of
                Inl e \<Rightarrow> Inl e
              | Inr (call, rt2) \<Rightarrow>
           (case parse_output X out_text (rt2\<lparr>tf_call := Some call\<rparr>) of
                Inl e \<Rightarrow> Inl e
              | Inr (outs, rt3) \<Rightarrow>
           (case parse_each (parse X ConstraintMode) con_lines (rt3\<lparr>out_args := Some outs\<rparr>) of
                Inl e \<Rightarrow> Inl e
              | Inr (cons, rt4) \<Rightarrow>
           (let rt5 = rt4\<lparr>constraints := Some cons\<rparr>
            in case (statements rt5, constraints rt5, tf_call rt5) of
                 (Some s, Some c, Some t) \<Rightarrow> post_init_all X (s @ c @ [t]) rt5
               | _ \<Rightarrow> Inl TypeError)))))
      | _ \<Rightarrow> Inl StopIteration)"

subsection \<open>Evaluation\<close>

text \<open>\<open>all(con.value() for con in cons)\<close> stops at the first false value.\<close>

fun all_values ::
  "('n, 'a, 'v) collaborators \<Rightarrow> 'n list \<Rightarrow> ('n, 'a, 'v) Runtime \<Rightarrow> error + bool" where
  "all_values X [] rt = Inr True"
| "all_values X (con # cons) rt =
     (case con_value X con rt of
        Inl e \<Rightarrow> Inl e
      | Inr b \<Rightarrow> if b then all_values X cons rt else Inr False)"

fun evaluate_all ::
  "('n, 'a, 'v) collaborators \<Rightarrow> 'n list \<Rightarrow> ('n, 'a, 'v) Runtime \<Rightarrow> error option \<times> ('n, 'a, 'v) Runtime" where
  "evaluate_all X [] rt = (None, rt)"
| "evaluate_all X (st # sts) rt =
     (case evaluate X st rt of
        Inl e \<Rightarrow> (Some e, rt)
      | Inr rt1 \<Rightarrow> evaluate_all X sts rt1)"

fun named_values ::
  "('n, 'a, 'v) collaborators \<Rightarrow> 'a list \<Rightarrow> ('n, 'a, 'v) Runtime \<Rightarrow> error + (string \<times> 'v) list" where
  "named_values X [] rt = Inr []"
| "named_values X (arg # args) rt =
     (case arg_value X arg rt of
        Inl e \<Rightarrow> Inl e
      | Inr v \<Rightarrow>
          (case named_values X args rt of
             Inl e \<Rightarrow> Inl e
           | Inr nvs \<Rightarrow> Inr ((arg_name X arg, v) # nvs)))"

text \<open>
  \<open>run\<close> returns \<open>None\<close> when a constraint fails and the set of results otherwise;
  iterating an attribute that is \<open>None\<close> is a TypeError and reading the attribute
  \<open>outputs\<close> when the object has none an AttributeError.
\<close>

definition run ::
  "('n, 'a, 'v) collaborators \<Rightarrow> ('n, 'a, 'v) Runtime \<Rightarrow>
     (error + (string \<times> 'v) set option) \<times> ('n, 'a, 'v) Runtime" where
  "run X rt =
     (case constraints rt of
        None \<Rightarrow> (Inl TypeError, rt)
      | Some cons \<Rightarrow>
     (case all_values X cons rt of
        Inl e \<Rightarrow> (Inl e, rt)
      | Inr ok \<Rightarrow>
          if \<not> ok then (Inr None, rt)
          else
     (case statements rt of
        None \<Rightarrow> (Inl TypeError, rt)
      | Some sts \<Rightarrow>
     (case evaluate_all X sts rt of
        (Some e, rt1) \<Rightarrow> (Inl e, rt1)
      | (None, rt1) \<Rightarrow>
     (case outputs rt1 of
        None \<Rightarrow> (Inl (AttributeError ''outputs''), rt1)
      | Some args \<Rightarrow>
     (case named_values X args rt1 of
        Inl e \<Rightarrow> (Inl e, rt1)
      | Inr outs \<Rightarrow> (Inr (Some (set outs)), rt1)))))))"

subsection \<open>The registry of groups\<close>

definition add_tup ::
  "string \<Rightarrow> EinTup option \<Rightarrow> ('n, 'a, 'v) Runtime \<Rightarrow> ('n, 'a, 'v) Runtime" where
  "add_tup nm sh_of rt =
     (case EinTup_init nm sh_of (shapes rt) of
        (t, h) \<Rightarrow> rt\<lparr>tups := dict_setitem (tups rt) nm t, shapes := h\<rparr>)"

definition maybe_add_tup ::
  "string \<Rightarrow> EinTup option \<Rightarrow> ('n, 'a, 'v) Runtime \<Rightarrow> (error + EinTup) \<times> ('n, 'a, 'v) Runtime" where
  "maybe_add_tup nm sh_of rt =
     (case (if nm \<in> set (map fst (tups rt)) then Inr rt
            else (case sh_of of
                    None \<Rightarrow> Inr (add_tup nm None rt)
                  | Some owner \<Rightarrow>
                      if name owner \<in> set (map fst (tups rt)) then Inr (add_tup nm (Some owner) rt)
                      else Inl (RuntimeError (ShadowOwnerMissing nm)))) of
        Inl e \<Rightarrow> (Inl e, rt)
      | Inr rt1 \<Rightarrow>
          (case map_of (tups rt1) nm of
             None \<Rightarrow> (Inl KeyError, rt1)
           | Some t \<Rightarrow> (Inr t, rt1)))"

definition get_primary_tups :: "('n, 'a, 'v) Runtime \<Rightarrow> EinTup list" where
  "get_primary_tups rt = filter primary (map snd (tups rt))"

definition tup :: "string \<Rightarrow> ('n, 'a, 'v) Runtime \<Rightarrow> error + EinTup" where
  "tup eintup rt =
     (if eintup \<notin> set (map fst (tups rt)) then Inl (RuntimeError (TupUnknown eintup))
      else (case map_of (tups rt) eintup of
              None \<Rightarrow> Inl KeyError
            | Some t \<Rightarrow> Inr t))"

definition Runtime_dims :: "string \<Rightarrow> ('n, 'a, 'v) Runtime \<Rightarrow> error + int list" where
  "Runtime_dims eintup rt =
     (case tup eintup rt of Inl e \<Rightarrow> Inl e | Inr t \<Rightarrow> EinTup_dims t (shapes rt))"

definition Runtime_rank :: "string \<Rightarrow> ('n, 'a, 'v) Runtime \<Rightarrow> error + nat" where
  "Runtime_rank eintup rt =
     (case Runtime_dims eintup rt of Inl e \<Rightarrow> Inl e | Inr ds \<Rightarrow> Inr (length ds))"

subsection \<open>Rank search\<close>

text \<open>
  \<open>np.random.randint(low, high, size)\<close> is numpy's: an empty array for size 0, ValueError
  when \<open>low >= high\<close>, and otherwise \<open>size\<close> draws from \<open>[low, high)\<close>, here the next
  entries of the random sequence reduced to that range.
\<close>

definition np_random_randint ::
  "int \<Rightarrow> int \<Rightarrow> nat \<Rightarrow> ('n, 'a, 'v) Runtime \<Rightarrow> (error + int list) \<times> ('n, 'a, 'v) Runtime" where
  "np_random_randint low high count rt =
     (if count = 0 then (Inr [], rt)
      else if low \<ge> high then (Inl ValueError, rt)
      else (Inr (map (\<lambda>k. low + int (rand rt (rand_pos rt + k) mod nat (high - low))) [0..<count]),
            rt\<lparr>rand_pos := rand_pos rt + count\<rparr>))"

text \<open>
  \<open>set_ranks\<close> walks the items of the rank map in order; a raise leaves the groups
  already handled with their new dims. Ranks are natural numbers, as \<open>gen_shapes\<close>
  supplies them.
\<close>

fun set_ranks ::
  "(string \<times> nat) list \<Rightarrow> ('n, 'a, 'v) Runtime \<Rightarrow> (error + unit) \<times> ('n, 'a, 'v) Runtime" where
  "set_ranks [] rt = (Inr (), rt)"
| "set_ranks ((tp, rank) # rest) rt =
     (if tp \<notin> set (map fst (tups rt)) then (Inl (RuntimeError (SetRanksUnknown tp)), rt)
      else
     (case tup tp rt of
        Inl e \<Rightarrow> (Inl e, rt)
      | Inr t \<Rightarrow>
          if \<not> primary t then (Inl (RuntimeError (SetRanksNonPrimary tp)), rt)
          else
     (case np_random_randint (min_dim rt) (max_dim rt) rank rt of
        (Inl e, rt1) \<Rightarrow> (Inl e, rt1)
      | (Inr ds, rt1) \<Rightarrow>
     (case tup tp rt1 of
        Inl e \<Rightarrow> (Inl e, rt1)
      | Inr t1 \<Rightarrow>
     (case EinTup_set_dims t1 ds (shapes rt1) of
        (Inl e, h) \<Rightarrow> (Inl e, rt1\<lparr>shapes := h\<rparr>)
      | (Inr u, h) \<Rightarrow> set_ranks rest (rt1\<lparr>shapes := h\<rparr>))))))"

text \<open>
  \<open>gen_shapes\<close> is a generator. The model runs it to the end and returns the rank maps
  it yields, in order, the exception that ended it (if any) and the Runtime it leaves.
\<close>

fun gen_shapes_loop ::
  "('n, 'a, 'v) collaborators \<Rightarrow> string list \<Rightarrow> nat list list \<Rightarrow> ('n, 'a, 'v) Runtime \<Rightarrow>
     (string \<times> nat) list list \<times> error option \<times> ('n, 'a, 'v) Runtime" where
  "gen_shapes_loop X names [] rt = ([], None, rt)"
| "gen_shapes_loop X names (rank_combo # later) rt =
     (let rank_map = dict_of (zip names rank_combo)
      in case set_ranks rank_map rt of
           (Inl e, rt1) \<Rightarrow> ([], Some e, rt1)
         | (Inr u, rt1) \<Rightarrow>
     (case constraints rt1 of
        None \<Rightarrow> ([], Some TypeError, rt1)
      | Some cons \<Rightarrow>
     (case all_values X cons rt1 of
        Inl e \<Rightarrow> ([], Some e, rt1)
      | Inr ok \<Rightarrow>
          if \<not> ok then gen_shapes_loop X names later rt1
          else (case gen_shapes_loop X names later rt1 of
                  (yielded, r) \<Rightarrow> (rank_map # yielded, r)))))"

definition gen_shapes ::
  "('n, 'a, 'v) collaborators \<Rightarrow> ('n, 'a, 'v) Runtime \<Rightarrow>
     (string \<times> nat) list list \<times> error option \<times> ('n, 'a, 'v) Runtime" where
  "gen_shapes X rt =
     (let primary_tup_names = map name (get_primary_tups rt);
          rank_space = replicate (length primary_tup_names) 10
      in gen_shapes_loop X primary_tup_names (ndindex rank_space) rt)"

text \<open>
  A Runtime with exactly two primary groups, \<open>p\<close> before \<open>q\<close> in the registry, each
  registered under its own name and each with a Shape of its own.
\<close>

definition two_primary :: "('n, 'a, 'v) Runtime \<Rightarrow> EinTup \<Rightarrow> EinTup \<Rightarrow> bool" where
  "two_primary rt p q =
     (get_primary_tups rt = [p, q] \<and>
      map_of (tups rt) (name p) = Some p \<and> map_of (tups rt) (name q) = Some q \<and>
      name p \<noteq> name q \<and> shape p \<noteq> shape q)"

section \<open>runtime.py: equal_tens\<close>

text \<open>
  The operands are TensorFlow tensors: a shape and the elements in row-major order, all
  of one element type. Three element types are modelled: a floating one, whose values
  are left open as the type \<open>'f\<close>, \<open>tf.int32\<close>, whose values are 32-bit words in
  two's complement, and \<open>tf.bool\<close>. \<open>dtype\<close> is the element type of a tensor and
  \<open>is_floating\<close> the property of it that \<open>equal_tens\<close> reads.
\<close>

datatype 'f elements = Floats "'f list" | Int32s "32 word list" | Bools "bool list"

record 'f tensor =
  tshape :: "nat list"
  elems :: "'f elements"

datatype dtype = tf_float | tf_int32 | tf_bool

definition dtype :: "'f tensor \<Rightarrow> dtype" where
  "dtype x = (case elems x of Floats _ \<Rightarrow> tf_float | Int32s _ \<Rightarrow> tf_int32 | Bools _ \<Rightarrow> tf_bool)"

definition is_floating :: "dtype \<Rightarrow> bool" where
  "is_floating t = (t = tf_float)"

text \<open>\<open>eps\<close> is a Python number: the integer that \<open>eps = 0\<close> assigns or the caller's value.\<close>

datatype 'f number = PyInt int | PyFloat 'f

text \<open>
  TensorFlow's floating-point arithmetic is a parameter: the difference of two values,
  the absolute value of one, and the comparison \<open>x <= eps\<close> of a value with the number
  \<open>eps\<close> converted to the element type. On \<open>int32\<close> the difference wraps around and
  the absolute value of the least value is that value itself.
\<close>

record 'f float_ops =
  fsub :: "'f \<Rightarrow> 'f \<Rightarrow> 'f"
  fabs :: "'f \<Rightarrow> 'f"
  fle :: "'f \<Rightarrow> 'f number \<Rightarrow> bool"

text \<open>
  \<open>a - b\<close> takes operands of the same element type and raises InvalidArgumentError
  otherwise; it is not defined for \<open>bool\<close> and raises for it as well. On equal shapes it
  works elementwise (\<open>equal_tens\<close> never subtracts operands of different shapes, so
  broadcasting is left out and raises here). \<open>tf.abs\<close> and \<open>tf.less_equal\<close> work
  elementwise, \<open>tf.less_equal\<close> after converting the number to the element type of the
  tensor, which fails for a float and for an integer outside the range when that type
  is \<open>int32\<close>; \<open>tf.reduce_all\<close> is the conjunction over all elements.
\<close>

definition tf_sub :: "'f float_ops \<Rightarrow> 'f tensor \<Rightarrow> 'f tensor \<Rightarrow> error + 'f tensor" where
  "tf_sub F a b =
     (if tshape a \<noteq> tshape b then Inl InvalidArgumentError
      else (case (elems a, elems b) of
              (Floats xs, Floats ys) \<Rightarrow>
                Inr \<lparr>tshape = tshape a, elems = Floats (map (\<lambda>xy. fsub F (fst xy) (snd xy)) (zip xs ys))\<rparr>
            | (Int32s xs, Int32s ys) \<Rightarrow>
                Inr \<lparr>tshape = tshape a, elems = Int32s (map (\<lambda>xy. fst xy - snd xy) (zip xs ys))\<rparr>
            | _ \<Rightarrow> Inl InvalidArgumentError))"

definition tf_abs :: "'f float_ops \<Rightarrow> 'f tensor \<Rightarrow> error + 'f tensor" where
  "tf_abs F x =
     (case elems x of
        Floats xs \<Rightarrow> Inr (x\<lparr>elems := Floats (map (fabs F) xs)\<rparr>)
      | Int32s xs \<Rightarrow> Inr (x\<lparr>elems := Int32s (map (\<lambda>v. if sint v < 0 then - v else v) xs)\<rparr>)
      | Bools _ \<Rightarrow> Inl InvalidArgumentError)"

definition tf_less_equal :: "'f float_ops \<Rightarrow> 'f tensor \<Rightarrow> 'f number \<Rightarrow> error + bool list" where
  "tf_less_equal F x eps =
     (case elems x of
        Floats xs \<Rightarrow> Inr (map (\<lambda>v. fle F v eps) xs)
      | Int32s xs \<Rightarrow>
          (case eps of
             PyInt n \<Rightarrow>
               if - (2 ^ 31) \<le> n \<and> n < 2 ^ 31 then Inr (map (\<lambda>v. sint v \<le> n) xs)
               else Inl OverflowError
           | PyFloat _ \<Rightarrow> Inl TypeError)
      | Bools _ \<Rightarrow> Inl InvalidArgumentError)"

definition tf_reduce_all :: "bool list \<Rightarrow> bool" where
  "tf_reduce_all bs = list_all (\<lambda>b. b) bs"

text \<open>
  \<open>x and y\<close> gives \<open>x\<close> when it is false and does not evaluate \<open>y\<close> then.
\<close>

definition equal_tens :: "'f float_ops \<Rightarrow> 'f tensor \<Rightarrow> 'f tensor \<Rightarrow> 'f number \<Rightarrow> error + bool" where
  "equal_tens F a b eps =
     (let eps = (if \<not> is_floating (dtype a) then PyInt 0 else eps)
      in if tshape a \<noteq> tshape b then Inr False
         else (case tf_sub F a b of
                 Inl e \<Rightarrow> Inl e
               | Inr d \<Rightarrow>
                   (case tf_abs F d of
                      Inl e \<Rightarrow> Inl e
                    | Inr m \<Rightarrow>
                        (case tf_less_equal F m eps of
                           Inl e \<Rightarrow> Inl e
                         | Inr bs \<Rightarrow> Inr (tf_reduce_all bs)))))"

section \<open>opcheck.py\<close>

text \<open>The singleton \<open>config\<close> object and its setter.\<close>

record config =
  validate :: bool

definition config_init :: config where
  "config_init = \<lparr>validate = False\<rparr>"

definition validate_schema :: "bool \<Rightarrow> config \<Rightarrow> config" where
  "validate_schema do_validate c = c\<lparr>validate := do_validate\<rparr>"

text \<open>
  An exception object raised by the wrapped operation, by \<open>inspect\<close> or by \<open>print\<close>: its
  class name, its message and whether the class derives from \<open>Exception\<close>, which is
  what the handler \<open>except Exception\<close> catches (KeyboardInterrupt and SystemExit do
  not).
\<close>

record exc =
  exc_type :: string
  exc_msg :: string
  is_Exception :: bool

text \<open>
  The wrapped framework function: \<open>sig_bind\<close> is \<open>inspect.signature(func).bind\<close> followed
  by \<open>apply_defaults\<close>, which raises TypeError when the call does not fit the
  parameter list and gives the bound arguments otherwise; \<open>call\<close> is \<open>func(*args,
  **kwargs)\<close>, which returns or raises.
\<close>

record ('c, 'b, 'r) framework_op =
  sig_bind :: "'c \<Rightarrow> exc + 'b"
  call :: "'c \<Rightarrow> exc + 'r"

text \<open>
  The schema object \<open>op.p\<close> belongs to the module \<open>schema\<close>, which is not part of the
  two modules. Its methods are functions of its state \<open>'s\<close> that return normally, with
  the results the wrapper uses: \<open>evaluate()\<close> gives a truth value and \<open>report()\<close> a
  string.
\<close>

record ('s, 'b, 'r) schema_p =
  p_init :: "'b \<Rightarrow> 's \<Rightarrow> 's"
  p_evaluate :: "'s \<Rightarrow> bool \<times> 's"
  p_report :: "'s \<Rightarrow> string \<times> 's"
  p_set_outputs :: "'r \<Rightarrow> 's \<Rightarrow> 's"
  p_validate :: "'s \<Rightarrow> 's"
  p_op_path :: "'s \<Rightarrow> string"

text \<open>
  What a call of the wrapper does to its surroundings: the messages it has printed and
  the schema methods it has called, in order of occurrence. \<open>stdout\<close> is what \<open>print\<close>
  does with a message: \<open>None\<close> when the text is written, and otherwise the exception
  that \<open>print\<close> raises, be it from formatting the message (the \<open>__str__\<close> of the
  exception in it) or from the stream (closed, or unable to encode the text).
\<close>

datatype message =
    InputPassed string
  | InputFailed string string
  | FrameworkRaised exc

datatype ('b, 'r) event =
    Init 'b
  | Evaluate
  | Report
  | SetOutputs 'r
  | Validate
  | Print message

record ('s, 'b, 'r) world =
  cfg :: config
  schema :: 's
  stdout :: "message \<Rightarrow> exc option"
  trace :: "('b, 'r) event list"

definition emit :: "('b, 'r) event \<Rightarrow> ('s, 'b, 'r) world \<Rightarrow> ('s, 'b, 'r) world" where
  "emit ev w = w\<lparr>trace := trace w @ [ev]\<rparr>"

definition py_print :: "message \<Rightarrow> ('s, 'b, 'r) world \<Rightarrow> exc option \<times> ('s, 'b, 'r) world" where
  "py_print m w =
     (case stdout w m of
        None \<Rightarrow> (None, emit (Print m) w)
      | Some e \<Rightarrow> (Some e, w))"

text \<open>\<open>op.p.report()\<close>: the string it returns and the world after the call.\<close>

definition call_report :: "('s, 'b, 'r) schema_p \<Rightarrow> ('s, 'b, 'r) world \<Rightarrow> string \<times> ('s, 'b, 'r) world" where
  "call_report P w =
     (fst (p_report P (schema w)), emit Report (w\<lparr>schema := snd (p_report P (schema w))\<rparr>))"

text \<open>
  The statements of \<open>wrapper\<close> between the binding of the arguments and the \<open>try\<close>:
  \<open>op.p.init\<close>, \<open>op.p.evaluate()\<close> and the print of the outcome, whose text contains
  the string of \<open>op.p.report()\<close> when the validation failed. A print that raises ends
  the wrapper there.
\<close>

definition check_inputs ::
  "('s, 'b, 'r) schema_p \<Rightarrow> 'b \<Rightarrow> ('s, 'b, 'r) world \<Rightarrow> exc option \<times> ('s, 'b, 'r) world" where
  "check_inputs P bound_args w =
     (let w1 = emit (Init bound_args) (w\<lparr>schema := p_init P bound_args (schema w)\<rparr>);
          opcheck_valid = fst (p_evaluate P (schema w1));
          w2 = emit Evaluate (w1\<lparr>schema := snd (p_evaluate P (schema w1))\<rparr>)
      in if opcheck_valid then py_print (InputPassed (p_op_path P (schema w2))) w2
         else py_print (InputFailed (p_op_path P (schema w2)) (fst (call_report P w2)))
                (snd (call_report P w2)))"

text \<open>
  The body of \<open>wrapper\<close>. The handler prints the diagnostic before it stores the
  exception in \<open>framework_ex\<close>: when that print raises, \<open>framework_ex\<close> is still
  \<open>None\<close> and the exception of the print is the one that leaves the \<open>try\<close> statement.
  The \<open>finally\<close> clause calls \<open>op.p.report()\<close>, without using what it returns, on every
  path out of the \<open>try\<close> statement; an exception that the handler stored is raised
  again from there, any other goes on propagating after the clause, and the \<open>return\<close>
  is reached when there was none.
\<close>

definition wrapper ::
  "('s, 'b, 'r) schema_p \<Rightarrow> ('c, 'b, 'r) framework_op \<Rightarrow> 'c \<Rightarrow> ('s, 'b, 'r) world \<Rightarrow>
     (exc + 'r) \<times> ('s, 'b, 'r) world" where
  "wrapper P func args w =
     (case sig_bind func args of
        Inl e \<Rightarrow> (Inl e, w)
      | Inr bound_args \<Rightarrow>
     (case check_inputs P bound_args w of
        (Some e, w3) \<Rightarrow> (Inl e, w3)
      | (None, w3) \<Rightarrow>
     (case call func args of
        Inl ex \<Rightarrow>
          if is_Exception ex
          then (case py_print (FrameworkRaised ex) w3 of
                  (Some e, w4) \<Rightarrow> (Inl e, snd (call_report P w4))
                | (None, w4) \<Rightarrow> (Inl ex, snd (call_report P w4)))
          else (Inl ex, snd (call_report P w3))
      | Inr ret_val \<Rightarrow>
          (Inr ret_val,
           snd (call_report P
             (emit Validate ((emit (SetOutputs ret_val) w3)
                \<lparr>schema := p_validate P (p_set_outputs P ret_val (schema w3))\<rparr>)))))))"

section \<open>Example programs and values\<close>

text \<open>Two groups: \<open>batch\<close> is primary, \<open>slice\<close> shadows it.\<close>

definition batch_tup :: EinTup where
  "batch_tup = fst (EinTup_init ''batch'' None empty_store)"

definition batch_store :: store where
  "batch_store = snd (EinTup_init ''batch'' None empty_store)"

definition slice_tup :: EinTup where
  "slice_tup = fst (EinTup_init ''slice'' (Some batch_tup) batch_store)"

definition slice_store :: store where
  "slice_store = snd (EinTup_init ''slice'' (Some batch_tup) batch_store)"

text \<open>
  A grammar that keeps every text it is given as the node, with nodes that do nothing
  and constraints that hold; a specification without a constraints section; and the
  Runtime that loading it leaves.
\<close>

definition echo :: "(mode \<times> string, string, string) collaborators" where
  "echo = \<lparr>parse = (\<lambda>m s rt. Inr ((m, s), rt)),
           parse_output = (\<lambda>s rt. Inr ([s], rt)),
           post_parse_init = (\<lambda>n rt. Inr rt),
           evaluate = (\<lambda>n rt. Inr rt),
           con_value = (\<lambda>n rt. Inr True),
           arg_name = (\<lambda>a. a),
           arg_value = (\<lambda>a rt. Inr a)\<rparr>"

definition three_sections :: string where
  "three_sections = ''out[b] = in[b]'' @ [newline, newline] @ ''tf.identity(in)'' @ [newline, newline] @ ''out'' @ [newline]"

definition fresh_runtime :: "(mode \<times> string, string, string) Runtime" where
  "fresh_runtime = Runtime_init 5 100 (\<lambda>k. k)"

definition loaded_runtime :: "(mode \<times> string, string, string) Runtime" where
  "loaded_runtime =
     fresh_runtime\<lparr>statements := Some [(StatementMode, ''out[b] = in[b]'')],
                    tf_call := Some (TfCallMode, ''tf.identity(in)''),
                    out_args := Some [''out''],
                    constraints := Some [(ConstraintMode, [])]\<rparr>"

text \<open>
  Constraint nodes that name a group and hold when its rank is not 0, and a Runtime with
  the two primary groups \<open>batch\<close> and \<open>slice\<close>.
\<close>

definition rank_gate :: "(string, string, string) collaborators" where
  "rank_gate = \<lparr>parse = (\<lambda>m s rt. Inr (s, rt)),
                parse_output = (\<lambda>s rt. Inr ([s], rt)),
                post_parse_init = (\<lambda>n rt. Inr rt),
                evaluate = (\<lambda>n rt. Inr rt),
                con_value = (\<lambda>n rt. case Runtime_rank n rt of Inl e \<Rightarrow> Inl e | Inr k \<Rightarrow> Inr (k \<noteq> 0)),
                arg_name = (\<lambda>a. a),
                arg_value = (\<lambda>a rt. Inr a)\<rparr>"

definition two_groups :: "(string, string, string) Runtime" where
  "two_groups =
     snd (maybe_add_tup ''slice'' None
       (snd (maybe_add_tup ''batch'' None (Runtime_init 5 100 (\<lambda>k. k)))))"

definition slice2 :: EinTup where
  "slice2 = EinTup ''slice'' None 1 None None"

text \<open>
  A schema that counts the calls it receives, an operation that raises, one that returns
  its argument, a world in which \<open>validate_schema(False)\<close> has been called and every
  print goes through, and one in which the print of the diagnostic raises.
\<close>

definition tally :: "(nat, string, string) schema_p" where
  "tally = \<lparr>p_init = (\<lambda>b s. 0),
            p_evaluate = (\<lambda>s. (True, Suc s)),
            p_report = (\<lambda>s. (''report'', Suc s)),
            p_set_outputs = (\<lambda>r s. Suc s),
            p_validate = (\<lambda>s. Suc s),
            p_op_path = (\<lambda>s. ''tf.nn.convolution'')\<rparr>"





definition identity_op :: "(string, string, string) framework_op" where
  "identity_op = \<lparr>sig_bind = (\<lambda>c. Inr c), call = (\<lambda>c. Inr c)\<rparr>"

definition quiet_world :: "(nat, string, string) world" where
  "quiet_world = \<lparr>cfg = validate_schema False config_init, schema = 0,
                  stdout = (\<lambda>m. None), trace = []\<rparr>"


text \<open>
  Two \<open>int32\<close> tensors of shape \<open>[1]\<close> with the elements 2147483647 and -1, and a
  \<open>bool\<close> tensor.
\<close>

definition int_max :: "'f tensor" where
  "int_max = \<lparr>tshape = [1], elems = Int32s [2147483647]\<rparr>"

definition minus_one :: "'f tensor" where
  "minus_one = \<lparr>tshape = [1], elems = Int32s [- 1]\<rparr>"

definition truth :: "'f tensor" where
  "truth = \<lparr>tshape = [1], elems = Bools [True]\<rparr>"

section \<open>Auxiliary facts\<close>

lemma drain_index:
  "index t = Some ix \<Longrightarrow>
   drain t = (Inr ix, EinTup (name t) (shadow_of t) (shape t) (Some [])
                        (if ix = [] then val t else Some (last ix)))"
proof (induction ix arbitrary: t)
  case Nil
  then show ?case
    by (cases t) (simp add: drain.simps EinTup_next_def)
next
  case (Cons v rest)
  let ?t' = "EinTup (name t) (shadow_of t) (shape t) (Some rest) (Some v)"
  have nx: "EinTup_next t = (Inr v, ?t')"
    using Cons.prems by (simp add: EinTup_next_def EinTup_value_def)
  have "drain ?t' = (Inr rest, EinTup (name t) (shadow_of t) (shape t) (Some [])
                        (if rest = [] then Some v else Some (last rest)))"
    using Cons.IH [of ?t'] by simp
  then show ?case
    using nx by (subst drain.simps) simp
qed

lemma drain_EinTup:
  "drain (EinTup n s a (Some ix) v) =
     (Inr ix, EinTup n s a (Some []) (if ix = [] then v else Some (last ix)))"
  using drain_index [of "EinTup n s a (Some ix) v" ix] by simp

lemma np_prod_int32_eq:
  assumes "\<forall>d \<in> set ds. - (2 ^ 63) \<le> d \<and> d < 2 ^ 63"
  shows "np_prod_int32 ds = Inr (word_of_int (prod_list ds))"
proof -
  have "fold (\<lambda>d acc. acc * word_of_int d) ds (a :: 32 word) = a * word_of_int (prod_list ds)" for a
    by (induction ds arbitrary: a) (simp_all add: algebra_simps)
  moreover have "\<not> list_ex (\<lambda>d. d < - (2 ^ 63) \<or> 2 ^ 64 \<le> d) ds"
    using assms by (fastforce simp: list_ex_iff)
  moreover have "\<not> list_ex (\<lambda>d. 2 ^ 63 \<le> d) ds"
    using assms by (fastforce simp: list_ex_iff)
  ultimately show ?thesis
    by (simp add: np_prod_int32_def)
qed

lemma length_ndindex: "length (ndindex ds) = prod_list ds"
proof (induction ds)
  case Nil
  then show ?case by simp
next
  case (Cons d ds)
  have "length (concat (map (\<lambda>i. map ((#) i) (ndindex ds)) [0..<n])) = n * length (ndindex ds)" for n
    by (induction n) simp_all
  then show ?case using Cons by simp
qed

lemma set_ndindex:
  "set (ndindex ds) = {ix. length ix = length ds \<and> (\<forall>k < length ds. ix ! k < ds ! k)}"
proof (induction ds)
  case Nil
  then show ?case by auto
next
  case (Cons d ds)
  show ?case
  proof (rule set_eqI)
    fix ix
    show "ix \<in> set (ndindex (d # ds)) \<longleftrightarrow> ix \<in> {ix. length ix = length (d # ds) \<and> (\<forall>k < length (d # ds). ix ! k < (d # ds) ! k)}"
    proof (cases ix)
      case Nil
      then show ?thesis by auto
    next
      case (Cons i rest)
      have "(\<forall>k < Suc (length ds). (i # rest) ! k < (d # ds) ! k) \<longleftrightarrow> i < d \<and> (\<forall>k < length ds. rest ! k < ds ! k)"
        by (auto simp: nth_Cons split: nat.splits)
      then show ?thesis
        using Cons Cons.IH by auto
    qed
  qed
qed

lemma sorted_ndindex:
  "sorted_wrt (\<lambda>a b. (a, b) \<in> lexord {(x, y). x < y}) (ndindex ds)"
proof (induction ds)
  case Nil
  then show ?case by simp
next
  case (Cons d ds)
  have inner: "sorted_wrt (\<lambda>a b. (a, b) \<in> lexord {(x, y). x < (y::nat)}) (map ((#) i) (ndindex ds))" for i
    using Cons.IH by (simp add: sorted_wrt_map)
  have "sorted_wrt (\<lambda>a b. (a, b) \<in> lexord {(x, y). x < (y::nat)})
          (concat (map (\<lambda>i. map ((#) i) (ndindex ds)) [0..<n]))" for n
  proof (induction n)
    case 0
    then show ?case by simp
  next
    case (Suc n)
    then show ?case
      using inner by (auto simp: sorted_wrt_append)
  qed
  then show ?case by simp
qed

lemma example_tups:
  "batch_tup = EinTup ''batch'' None 0 None None"
  "slice_tup = EinTup ''slice'' (Some batch_tup) 0 None None"
  "slice_store = batch_store"
  by (simp_all add: batch_tup_def slice_tup_def slice_store_def batch_store_def EinTup_init_def
                    new_Shape_def empty_store_def)

lemma post_init_all_frame:
  assumes "\<And>n r r'. post_parse_init X n r = Inr r' \<Longrightarrow> f r' = f r"
      and "post_init_all X nodes rt = Inr rt'"
  shows "f rt' = f rt"
  using assms(2)
proof (induction nodes arbitrary: rt)
  case Nil
  then show ?case by simp
next
  case (Cons n nodes)
  then show ?case
    by (auto split: sum.splits dest: assms(1))
qed

lemma parse_each_frame:
  assumes "\<And>s r n r'. g s r = Inr (n, r') \<Longrightarrow> f r' = f r"
      and "parse_each g ss rt = Inr (ns, rt')"
  shows "f rt' = f rt"
  using assms(2)
proof (induction ss arbitrary: rt ns)
  case Nil
  then show ?case by simp
next
  case (Cons s ss)
  then show ?case
    by (auto split: sum.splits prod.splits dest: assms(1))
qed

lemma split_newline_strip_empty: "split_newline (strip []) = [[]]"
  by (simp add: strip_def)

lemma absent_constraints_one_node:
  assumes sec: "re_split_blank (strip content) = [s1, s2, s3]"
      and fr: "\<forall>n r r'. post_parse_init X n r = Inr r' \<longrightarrow> constraints r' = constraints r"
      and ok: "parse_et_file X content rt = Inr rt'"
  shows "\<exists>c r r'. parse X ConstraintMode [] r = Inr (c, r') \<and> constraints rt' = Some [c]"
proof -
  have frame: "\<And>n r r'. post_parse_init X n r = Inr r' \<Longrightarrow> constraints r' = constraints r"
    using fr by blast
  from ok sec obtain r3 c0 r4 nodes where
    c0: "parse X ConstraintMode [] r3 = Inr (c0, r4)"
    and pi: "post_init_all X nodes (r4\<lparr>constraints := Some [c0]\<rparr>) = Inr rt'"
    by (auto simp: parse_et_file_def Let_def split_newline_strip_empty
             split: sum.splits prod.splits option.splits)
  have "constraints rt' = constraints (r4\<lparr>constraints := Some [c0]\<rparr>)"
    using post_init_all_frame [where f = constraints, OF frame pi] by simp
  then show ?thesis
    using c0 by auto
qed

lemma three_sections_split:
  "re_split_blank (strip three_sections) = [''out[b] = in[b]'', ''tf.identity(in)'', ''out'']"
  by (simp add: three_sections_def strip_def is_space_def newline_def)

lemma load_three_sections:
  "parse_et_file echo three_sections fresh_runtime =
     Inr (fresh_runtime\<lparr>statements := Some [(StatementMode, ''out[b] = in[b]'')],
                         tf_call := Some (TfCallMode, ''tf.identity(in)''),
                         out_args := Some [''out''],
                         constraints := Some [(ConstraintMode, [])]\<rparr>)"
  unfolding parse_et_file_def three_sections_split
  by (simp add: echo_def strip_def is_space_def newline_def replace_newline_def
                fresh_runtime_def Runtime_init_def)

lemma evaluate_all_frame:
  assumes "\<And>n r r'. evaluate X n r = Inr r' \<Longrightarrow> f r' = f r"
  shows "f (snd (evaluate_all X sts rt)) = f rt"
proof (induction sts arbitrary: rt)
  case Nil
  then show ?case by simp
next
  case (Cons st sts)
  then show ?case
    by (auto split: sum.splits dest: assms)
qed

lemma parse_et_file_outputs:
  assumes p0: "\<forall>m s r n r'. parse X m s r = Inr (n, r') \<longrightarrow> outputs r' = outputs r"
      and po0: "\<forall>s r a r'. parse_output X s r = Inr (a, r') \<longrightarrow> outputs r' = outputs r"
      and pp0: "\<forall>n r r'. post_parse_init X n r = Inr r' \<longrightarrow> outputs r' = outputs r"
      and ok: "parse_et_file X content rt = Inr rt'"
  shows "outputs rt' = outputs rt"
proof -
  have p: "\<And>m s r n r'. parse X m s r = Inr (n, r') \<Longrightarrow> outputs r' = outputs r"
    and po: "\<And>s r a r'. parse_output X s r = Inr (a, r') \<Longrightarrow> outputs r' = outputs r"
    and pp: "\<And>n r r'. post_parse_init X n r = Inr r' \<Longrightarrow> outputs r' = outputs r"
    using p0 po0 pp0 by blast+
  from ok obtain st_lines sts r1 call_text call r2 out_text outs r3 con_lines cons r4 nodes where
    a: "parse_each (parse X StatementMode) st_lines rt = Inr (sts, r1)"
    and b: "parse X TfCallMode call_text (r1\<lparr>statements := Some sts\<rparr>) = Inr (call, r2)"
    and c: "parse_output X out_text (r2\<lparr>tf_call := Some call\<rparr>) = Inr (outs, r3)"
    and d: "parse_each (parse X ConstraintMode) con_lines (r3\<lparr>out_args := Some outs\<rparr>) = Inr (cons, r4)"
    and e: "post_init_all X nodes (r4\<lparr>constraints := Some cons\<rparr>) = Inr rt'"
    by (auto simp: parse_et_file_def Let_def
             split: list.splits sum.splits prod.splits option.splits)
  have "outputs r1 = outputs rt"
    using parse_each_frame [where f = outputs, OF p a] .
  moreover have "outputs r2 = outputs r1"
    using p [OF b] by simp
  moreover have "outputs r3 = outputs r2"
    using po [OF c] by simp
  moreover have "outputs r4 = outputs r3"
    using parse_each_frame [where f = outputs, OF p d] by simp
  moreover have "outputs rt' = outputs r4"
    using post_init_all_frame [where f = outputs, OF pp e] by simp
  ultimately show ?thesis
    by simp
qed

lemma run_without_outputs:
  assumes ev0: "\<forall>n r r'. evaluate X n r = Inr r' \<longrightarrow> outputs r' = outputs r"
      and none: "outputs rt = None"
  shows "fst (run X rt) \<noteq> Inr (Some res)"
    and "constraints rt = Some cons \<Longrightarrow> all_values X cons rt = Inr True \<Longrightarrow>
         statements rt = Some sts \<Longrightarrow> evaluate_all X sts rt = (None, rt1) \<Longrightarrow>
         run X rt = (Inl (AttributeError ''outputs''), rt1)"
proof -
  have ev: "\<And>n r r'. evaluate X n r = Inr r' \<Longrightarrow> outputs r' = outputs r"
    using ev0 by blast
  have o: "outputs (snd (evaluate_all X sts' rt)) = None" for sts'
    using evaluate_all_frame [where f = outputs, OF ev] none by simp
  show "fst (run X rt) \<noteq> Inr (Some res)"
  proof (cases "constraints rt")
    case None
    then show ?thesis by (simp add: run_def)
  next
    case (Some cons')
    show ?thesis
    proof (cases "statements rt")
      case None
      then show ?thesis
        using Some by (simp add: run_def split: sum.splits)
    next
      case (Some sts')
      obtain e r where er: "evaluate_all X sts' rt = (e, r)"
        by (cases "evaluate_all X sts' rt")
      with o [of sts'] have "outputs r = None"
        by simp
      then show ?thesis
        using \<open>constraints rt = Some cons'\<close> Some er
        by (simp add: run_def split: sum.splits option.splits)
    qed
  qed
  show "run X rt = (Inl (AttributeError ''outputs''), rt1)"
    if "constraints rt = Some cons" "all_values X cons rt = Inr True"
       "statements rt = Some sts" "evaluate_all X sts rt = (None, rt1)"
    using that o [of sts] by (simp add: run_def)
qed

lemma run_constraint_false:
  "constraints rt = Some cons \<Longrightarrow> all_values X cons rt = Inr False \<Longrightarrow> run X rt = (Inr None, rt)"
  by (simp add: run_def)

lemma dict_of_pair: "k1 \<noteq> k2 \<Longrightarrow> dict_of [(k1, v1), (k2, v2)] = [(k1, v1), (k2, v2)]"
  by (simp add: dict_of_def dict_setitem_def)

lemma all_values_accept:
  "(\<And>c. c \<in> set cons \<Longrightarrow> con_value X c r = Inr (acc c)) \<Longrightarrow>
   all_values X cons r = Inr (list_all acc cons)"
  by (induction cons) auto

lemma ndindex_pair:
  "ndindex [a, b] = map (\<lambda>(i, j). [i, j]) (List.product [0..<a] [0..<b])"
proof -
  have "concat (map (\<lambda>i. map (\<lambda>j. [i, j]) ys) xs) = map (\<lambda>(i, j). [i, j]) (List.product xs ys)"
    for xs ys :: "nat list"
    by (induction xs) (simp_all add: comp_def)
  then show ?thesis
    by (simp add: comp_def)
qed

lemma set_ranks_Cons:
  assumes "map_of (tups rt) nm = Some t" and "primary t" and "min_dim rt < max_dim rt"
  shows "\<exists>ds rt1. length ds = k \<and> tups rt1 = tups rt \<and> constraints rt1 = constraints rt \<and>
           min_dim rt1 = min_dim rt \<and> max_dim rt1 = max_dim rt \<and>
           (\<forall>a. dims (cells (shapes rt1) a) =
                  (if a = shape t then Some ds else dims (cells (shapes rt) a))) \<and>
           set_ranks ((nm, k) # rest) rt = set_ranks rest rt1"
proof -
  have key: "nm \<in> set (map fst (tups rt))"
    using assms(1) by (metis map_of_eq_None_iff option.distinct(1) set_map)
  have tp: "tup nm rt = Inr t"
    using key assms(1) by (simp add: tup_def)
  obtain ds rt0 where r: "np_random_randint (min_dim rt) (max_dim rt) k rt = (Inr ds, rt0)"
    and len: "length ds = k"
    and same: "tups rt0 = tups rt" "constraints rt0 = constraints rt" "min_dim rt0 = min_dim rt"
              "max_dim rt0 = max_dim rt" "shapes rt0 = shapes rt"
    using assms(3) by (cases "k = 0") (auto simp: np_random_randint_def)
  have tp0: "tup nm rt0 = Inr t"
    using key assms(1) same by (simp add: tup_def)
  let ?h = "(shapes rt0)\<lparr>cells := (cells (shapes rt0))(shape t := Shape_set ds (cells (shapes rt0) (shape t)))\<rparr>"
  have sd: "EinTup_set_dims t ds (shapes rt0) = (Inr (), ?h)"
    using assms(2) by (simp add: EinTup_set_dims_def primary_def)
  have "set_ranks ((nm, k) # rest) rt = set_ranks rest (rt0\<lparr>shapes := ?h\<rparr>)"
    using key tp assms(2) r tp0 sd by simp
  moreover have "\<forall>a. dims (cells (shapes (rt0\<lparr>shapes := ?h\<rparr>)) a) =
                  (if a = shape t then Some ds else dims (cells (shapes rt) a))"
    using same by (simp add: Shape_set_def)
  ultimately show ?thesis
    using len same by (intro exI [of _ ds] exI [of _ "rt0\<lparr>shapes := ?h\<rparr>"]) simp
qed

lemma set_ranks_pair:
  assumes tp: "two_primary rt p q" and mm: "min_dim rt < max_dim rt"
  shows "\<exists>rt'. set_ranks [(name p, i), (name q, j)] rt = (Inr (), rt') \<and>
           tups rt' = tups rt \<and> constraints rt' = constraints rt \<and>
           min_dim rt' = min_dim rt \<and> max_dim rt' = max_dim rt \<and>
           EinTup_rank p (shapes rt') = Inr i \<and> EinTup_rank q (shapes rt') = Inr j"
proof -
  from tp have mp: "map_of (tups rt) (name p) = Some p" and mq: "map_of (tups rt) (name q) = Some q"
    and ne: "shape p \<noteq> shape q" and prim: "get_primary_tups rt = [p, q]"
    by (simp_all add: two_primary_def)
  have "p \<in> set (get_primary_tups rt)" "q \<in> set (get_primary_tups rt)"
    using prim by simp_all
  then have pp: "primary p" and pq: "primary q"
    by (simp_all add: get_primary_tups_def)
  from set_ranks_Cons [OF mp pp mm, of i "[(name q, j)]"]
  obtain ds1 rt1 where 1: "length ds1 = i" "tups rt1 = tups rt" "constraints rt1 = constraints rt"
      "min_dim rt1 = min_dim rt" "max_dim rt1 = max_dim rt"
      "\<forall>a. dims (cells (shapes rt1) a) = (if a = shape p then Some ds1 else dims (cells (shapes rt) a))"
      "set_ranks [(name p, i), (name q, j)] rt = set_ranks [(name q, j)] rt1"
    by blast
  have mq1: "map_of (tups rt1) (name q) = Some q" and mm1: "min_dim rt1 < max_dim rt1"
    using 1 mq mm by simp_all
  from set_ranks_Cons [OF mq1 pq mm1, of j "[]"]
  obtain ds2 rt2 where 2: "length ds2 = j" "tups rt2 = tups rt1" "constraints rt2 = constraints rt1"
      "min_dim rt2 = min_dim rt1" "max_dim rt2 = max_dim rt1"
      "\<forall>a. dims (cells (shapes rt2) a) = (if a = shape q then Some ds2 else dims (cells (shapes rt1) a))"
      "set_ranks [(name q, j)] rt1 = set_ranks [] rt2"
    by blast
  have "EinTup_rank p (shapes rt2) = Inr i" "EinTup_rank q (shapes rt2) = Inr j"
    using 1 2 ne by (simp_all add: EinTup_rank_def Shape_get_def)
  then show ?thesis
    using 1 2 by (intro exI [of _ rt2]) simp
qed

lemma two_primary_cong: "tups rt' = tups rt \<Longrightarrow> two_primary rt' p q = two_primary rt p q"
  by (simp add: two_primary_def get_primary_tups_def)

lemma gen_shapes_loop_pairs:
  assumes acc: "\<And>c r i j. c \<in> set cons \<Longrightarrow> tups r = T \<Longrightarrow> EinTup_rank p (shapes r) = Inr i \<Longrightarrow>
                  EinTup_rank q (shapes r) = Inr j \<Longrightarrow> con_value X c r = Inr (accept c i j)"
      and "tups rt = T" and "two_primary rt p q" and "min_dim rt < max_dim rt"
      and "constraints rt = Some cons"
  shows "\<exists>rt'. gen_shapes_loop X [name p, name q] (map (\<lambda>(i, j). [i, j]) pairs) rt =
           (map (\<lambda>(i, j). [(name p, i), (name q, j)])
                (filter (\<lambda>(i, j). list_all (\<lambda>c. accept c i j) cons) pairs), None, rt')"
  using assms(2-)
proof (induction pairs arbitrary: rt)
  case Nil
  then show ?case by simp
next
  case (Cons ij pairs)
  obtain i j where ij: "ij = (i, j)"
    by (cases ij)
  have ne: "name p \<noteq> name q"
    using Cons.prems(2) by (simp add: two_primary_def)
  from set_ranks_pair [OF Cons.prems(2,3), of i j]
  obtain rt1 where 1: "set_ranks [(name p, i), (name q, j)] rt = (Inr (), rt1)"
      "tups rt1 = tups rt" "constraints rt1 = constraints rt"
      "min_dim rt1 = min_dim rt" "max_dim rt1 = max_dim rt"
      "EinTup_rank p (shapes rt1) = Inr i" "EinTup_rank q (shapes rt1) = Inr j"
    by blast
  have av: "all_values X cons rt1 = Inr (list_all (\<lambda>c. accept c i j) cons)"
    by (rule all_values_accept) (use acc 1 Cons.prems(1) in simp)
  have "tups rt1 = T" "two_primary rt1 p q" "min_dim rt1 < max_dim rt1" "constraints rt1 = Some cons"
    using 1 Cons.prems two_primary_cong [of rt1 rt p q] by simp_all
  from Cons.IH [OF this]
  obtain rt' where ih: "gen_shapes_loop X [name p, name q] (map (\<lambda>(i, j). [i, j]) pairs) rt1 =
           (map (\<lambda>(i, j). [(name p, i), (name q, j)])
                (filter (\<lambda>(i, j). list_all (\<lambda>c. accept c i j) cons) pairs), None, rt')"
    by blast
  show ?case
    using 1(1,3) Cons.prems(4) av ih ne by (simp add: ij dict_of_pair del: set_ranks.simps)
qed

lemma gen_shapes_two_primary:
  assumes acc: "\<And>c r i j. c \<in> set cons \<Longrightarrow> tups r = tups rt \<Longrightarrow> EinTup_rank p (shapes r) = Inr i \<Longrightarrow>
                  EinTup_rank q (shapes r) = Inr j \<Longrightarrow> con_value X c r = Inr (accept c i j)"
      and tp: "two_primary rt p q" and mm: "min_dim rt < max_dim rt"
      and cs: "constraints rt = Some cons"
  shows "\<exists>rt'. gen_shapes X rt =
           (map (\<lambda>(i, j). [(name p, i), (name q, j)])
                (filter (\<lambda>(i, j). list_all (\<lambda>c. accept c i j) cons)
                        (List.product [0..<10] [0..<10])), None, rt')"
proof -
  have names: "map name (get_primary_tups rt) = [name p, name q]"
    using tp by (simp add: two_primary_def)
  have space: "replicate (length [name p, name q]) (10::nat) = [10, 10]"
    by (simp add: numeral_2_eq_2)
  have "gen_shapes X rt = gen_shapes_loop X [name p, name q]
          (map (\<lambda>(i, j). [i, j]) (List.product [0..<10] [0..<10])) rt"
    unfolding gen_shapes_def names Let_def space ndindex_pair ..
  moreover obtain rt' where "gen_shapes_loop X [name p, name q]
          (map (\<lambda>(i, j). [i, j]) (List.product [0..<10] [0..<10])) rt =
           (map (\<lambda>(i, j). [(name p, i), (name q, j)])
                (filter (\<lambda>(i, j). list_all (\<lambda>c. accept c i j) cons)
                        (List.product [0..<10] [0..<10])), None, rt')"
    using gen_shapes_loop_pairs [where T = "tups rt" and accept = accept, OF acc refl tp mm cs]
    by blast
  ultimately show ?thesis
    by (intro exI [of _ rt']) (rule trans)
qed

lemma count_all: "length (List.product [0..<10] [0..<(10::nat)]) = 100"
  by simp

lemma nonzero_ranks: "length (filter (\<lambda>i. i \<noteq> 0) [0..<(10::nat)]) = 9"
proof -
  have "[0..<(10::nat)] = 0 # [1..<10]"
    by (simp add: upt_rec)
  moreover have "filter (\<lambda>i. i \<noteq> 0) [1..<(10::nat)] = [1..<10]"
    by (rule filter_True) simp
  ultimately show ?thesis
    by simp
qed

lemma count_first:
  "length (filter (\<lambda>(i, j). P i) (List.product xs ys)) = length (filter P xs) * length ys"
  by (induction xs) (simp_all add: comp_def)

lemma count_second:
  "length (filter (\<lambda>(i, j). Q j) (List.product xs ys)) = length xs * length (filter Q ys)"
  by (induction xs) (simp_all add: comp_def filter_map)

lemma count_first_nonzero:
  "length (filter (\<lambda>(i, j). i \<noteq> 0) (List.product [0..<10] [0..<(10::nat)])) = 90"
  by (simp only: count_first nonzero_ranks) simp

lemma count_second_nonzero:
  "length (filter (\<lambda>(i, j). j \<noteq> 0) (List.product [0..<10] [0..<(10::nat)])) = 90"
  by (simp only: count_second nonzero_ranks) simp

lemma two_groups_tups: "tups two_groups = [(''batch'', batch_tup), (''slice'', slice2)]"
  by (simp add: two_groups_def maybe_add_tup_def add_tup_def Runtime_init_def EinTup_init_def
                new_Shape_def empty_store_def dict_setitem_def example_tups slice2_def)

lemma two_groups_fields:
  "min_dim two_groups = 5" "max_dim two_groups = 100" "constraints two_groups = None"
  by (simp_all add: two_groups_def maybe_add_tup_def add_tup_def Runtime_init_def EinTup_init_def
                new_Shape_def empty_store_def dict_setitem_def)

lemma two_groups_primary: "two_primary (two_groups\<lparr>constraints := cs\<rparr>) batch_tup slice2"
  by (simp add: two_primary_def get_primary_tups_def two_groups_tups primary_def example_tups slice2_def)

lemma rank_gate_batch:
  assumes "tups r = tups two_groups" and "EinTup_rank batch_tup (shapes r) = Inr i"
  shows "con_value rank_gate ''batch'' r = Inr (i \<noteq> 0)"
  using assms
  by (auto simp: rank_gate_def Runtime_rank_def Runtime_dims_def tup_def two_groups_tups
                 EinTup_rank_def EinTup_dims_def split: sum.splits)

lemma rank_gate_slice:
  assumes "tups r = tups two_groups" and "EinTup_rank slice2 (shapes r) = Inr j"
  shows "con_value rank_gate ''slice'' r = Inr (j \<noteq> 0)"
  using assms
  by (auto simp: rank_gate_def Runtime_rank_def Runtime_dims_def tup_def two_groups_tups
                 EinTup_rank_def EinTup_dims_def split: sum.splits)

lemma len_unconstrained:
  "length (map f (filter (\<lambda>(i, j). list_all (\<lambda>c. accept c i j) []) xs)) = length xs"
  by (simp add: case_prod_unfold)

lemma len_single:
  "length (map f (filter (\<lambda>(i, j). list_all (\<lambda>c. accept c i j) [c]) xs)) =
   length (filter (\<lambda>(i, j). accept c i j) xs)"
  by (simp add: case_prod_unfold)

lemma load_three_sections':
  "parse_et_file echo three_sections fresh_runtime = Inr loaded_runtime"
  by (simp only: load_three_sections loaded_runtime_def)

lemma py_print_cfg:
  "py_print m (w\<lparr>cfg := c\<rparr>) = (fst (py_print m w), (snd (py_print m w))\<lparr>cfg := c\<rparr>)"
  by (simp add: py_print_def emit_def split: option.splits)

lemma call_report_cfg:
  "call_report P (w\<lparr>cfg := c\<rparr>) = (fst (call_report P w), (snd (call_report P w))\<lparr>cfg := c\<rparr>)"
  by (simp add: call_report_def emit_def)

lemma check_inputs_cfg:
  "check_inputs P b (w\<lparr>cfg := c\<rparr>) =
     (fst (check_inputs P b w), (snd (check_inputs P b w))\<lparr>cfg := c\<rparr>)"
  by (simp add: check_inputs_def Let_def py_print_def call_report_def emit_def
           split: option.splits)

lemma wrapper_cfg:
  "wrapper P func args (w\<lparr>cfg := c\<rparr>) =
     (fst (wrapper P func args w), (snd (wrapper P func args w))\<lparr>cfg := c\<rparr>)"
proof (cases "sig_bind func args")
  case (Inl e)
  then show ?thesis
    by (simp add: wrapper_def)
next
  case (Inr b)
  obtain r w3 where ci: "check_inputs P b w = (r, w3)"
    by (cases "check_inputs P b w")
  then have ci': "check_inputs P b (w\<lparr>cfg := c\<rparr>) = (r, w3\<lparr>cfg := c\<rparr>)"
    by (simp add: check_inputs_cfg)
  show ?thesis
    by (simp add: wrapper_def Inr ci ci' py_print_def call_report_def emit_def
             split: option.splits sum.splits)
qed

lemma check_inputs_trace:
  "\<exists>mid. trace (snd (check_inputs P b w)) = trace w @ [Init b, Evaluate] @ mid"
  by (simp add: check_inputs_def Let_def py_print_def call_report_def emit_def
           split: option.splits)

lemma check_inputs_stdout: "stdout (snd (check_inputs P b w)) = stdout w"
  by (simp add: check_inputs_def Let_def py_print_def call_report_def emit_def
           split: option.splits)

lemma check_inputs_quiet:
  "(\<forall>m. stdout w m = None) \<Longrightarrow> fst (check_inputs P b w) = None"
  by (simp add: check_inputs_def Let_def py_print_def call_report_def emit_def)

lemma wrapper_after_inputs:
  assumes "sig_bind func args = Inr b"
  shows "\<exists>post. trace (snd (wrapper P func args w)) = trace (snd (check_inputs P b w)) @ post"
proof -
  obtain r w3 where ci: "check_inputs P b w = (r, w3)"
    by (cases "check_inputs P b w")
  show ?thesis
    by (simp add: wrapper_def assms ci py_print_def call_report_def emit_def
             split: option.splits sum.splits)
qed

lemma wrapper_returns:
  assumes "sig_bind func args = Inr b" and "fst (wrapper P func args w) = Inr r"
  shows "check_inputs P b w = (None, snd (check_inputs P b w)) \<and> call func args = Inr r \<and>
         Validate \<in> set (trace (snd (wrapper P func args w)))"
proof -
  obtain e w3 where ci: "check_inputs P b w = (e, w3)"
    by (cases "check_inputs P b w")
  show ?thesis
    using assms(2)
    by (auto simp: wrapper_def assms(1) ci py_print_def call_report_def emit_def
             split: option.splits sum.splits if_splits)
qed

lemma wrapper_cases:
  assumes bind: "sig_bind func args = Inr b" and inputs: "check_inputs P b w = (None, w3)"
  shows "call func args = Inl ex \<Longrightarrow> is_Exception ex \<Longrightarrow> stdout w (FrameworkRaised ex) = None \<Longrightarrow>
           wrapper P func args w =
             (Inl ex, w3\<lparr>schema := snd (p_report P (schema w3)),
                         trace := trace w3 @ [Print (FrameworkRaised ex), Report]\<rparr>)"
    and "call func args = Inl ex \<Longrightarrow> is_Exception ex \<Longrightarrow> stdout w (FrameworkRaised ex) = Some e \<Longrightarrow>
           wrapper P func args w =
             (Inl e, w3\<lparr>schema := snd (p_report P (schema w3)), trace := trace w3 @ [Report]\<rparr>)"
    and "call func args = Inl ex \<Longrightarrow> \<not> is_Exception ex \<Longrightarrow>
           wrapper P func args w =
             (Inl ex, w3\<lparr>schema := snd (p_report P (schema w3)), trace := trace w3 @ [Report]\<rparr>)"
    and "call func args = Inr r \<Longrightarrow>
           wrapper P func args w =
             (Inr r, w3\<lparr>schema := snd (p_report P (p_validate P (p_set_outputs P r (schema w3)))),
                        trace := trace w3 @ [SetOutputs r, Validate, Report]\<rparr>)"
proof -
  have so: "stdout w3 = stdout w"
    using check_inputs_stdout [of P b w] inputs by simp
  show "call func args = Inl ex \<Longrightarrow> is_Exception ex \<Longrightarrow> stdout w (FrameworkRaised ex) = None \<Longrightarrow>
           wrapper P func args w =
             (Inl ex, w3\<lparr>schema := snd (p_report P (schema w3)),
                         trace := trace w3 @ [Print (FrameworkRaised ex), Report]\<rparr>)"
    by (simp add: wrapper_def bind inputs py_print_def call_report_def emit_def so)
  show "call func args = Inl ex \<Longrightarrow> is_Exception ex \<Longrightarrow> stdout w (FrameworkRaised ex) = Some e \<Longrightarrow>
           wrapper P func args w =
             (Inl e, w3\<lparr>schema := snd (p_report P (schema w3)), trace := trace w3 @ [Report]\<rparr>)"
    by (simp add: wrapper_def bind inputs py_print_def call_report_def emit_def so)
  show "call func args = Inl ex \<Longrightarrow> \<not> is_Exception ex \<Longrightarrow>
           wrapper P func args w =
             (Inl ex, w3\<lparr>schema := snd (p_report P (schema w3)), trace := trace w3 @ [Report]\<rparr>)"
    by (simp add: wrapper_def bind inputs py_print_def call_report_def emit_def so)
  show "call func args = Inr r \<Longrightarrow>
           wrapper P func args w =
             (Inr r, w3\<lparr>schema := snd (p_report P (p_validate P (p_set_outputs P r (schema w3)))),
                        trace := trace w3 @ [SetOutputs r, Validate, Report]\<rparr>)"
    by (simp add: wrapper_def bind inputs py_print_def call_report_def emit_def so)
qed

lemma quiet_inputs:
  "check_inputs tally ''x'' quiet_world =
     (None, quiet_world\<lparr>schema := 1,
                         trace := [Init ''x'', Evaluate, Print (InputPassed ''tf.nn.convolution'')]\<rparr>)"
  by (simp add: check_inputs_def Let_def py_print_def emit_def tally_def quiet_world_def)


section \<open>Properties of the index groups\<close>

text \<open>
  C6. A shadow built on a primary group \<open>p\<close> references the Shape object of \<open>p\<close> from
  its construction on; \<open>p.set_dims\<close> always succeeds, keeps the two same-shaped and is
  seen through the shadow; \<open>set_dims\<close> on the shadow always raises the RuntimeError of
  \<open>EinTup.set_dims\<close> (the spec's IllegalMutationError) and leaves the store, hence the
  shared dims, as it was.
\<close>

theorem shadow_shares_shape:
  assumes "EinTup_init pn None h0 = (p, h1)"
      and "EinTup_init sn (Some p) h1 = (sh, h2)"
  shows "primary p \<and> \<not> primary sh \<and> same_shape_as sh p \<and>
         (\<forall>ds h. \<exists>h'. EinTup_set_dims p ds h = (Inr (), h') \<and> same_shape_as sh p \<and>
                        EinTup_dims p h' = Inr ds \<and> EinTup_dims sh h' = Inr ds) \<and>
         (\<forall>ds h. EinTup_set_dims sh ds h = (Inl (RuntimeError SetDimsOnShadow), h))"
proof -
  from assms(1) have p: "shadow_of p = None"
    by (auto simp: EinTup_init_def new_Shape_def)
  from assms(2) have sh: "shadow_of sh = Some p" "shape sh = shape p"
    by (auto simp: EinTup_init_def)
  show ?thesis
    using p sh
    by (simp add: primary_def same_shape_as_def EinTup_set_dims_def EinTup_dims_def
                  Shape_get_def Shape_set_def)
qed

theorem shadow_shares_shape_witness:
  "same_shape_as slice_tup batch_tup \<and>
   EinTup_dims slice_tup (snd (EinTup_set_dims batch_tup [2, 3] slice_store)) = Inr [2, 3] \<and>
   EinTup_set_dims slice_tup [4] slice_store = (Inl (RuntimeError SetDimsOnShadow), slice_store)"
proof -
  have a: "EinTup_init ''batch'' None empty_store = (batch_tup, batch_store)"
    by (simp add: batch_tup_def batch_store_def)
  have b: "EinTup_init ''slice'' (Some batch_tup) batch_store = (slice_tup, slice_store)"
    by (simp add: slice_tup_def slice_store_def)
  from shadow_shares_shape [OF a b]
  have same: "same_shape_as slice_tup batch_tup"
    and set: "\<forall>ds h. \<exists>h'. EinTup_set_dims batch_tup ds h = (Inr (), h') \<and>
                same_shape_as slice_tup batch_tup \<and>
                EinTup_dims batch_tup h' = Inr ds \<and> EinTup_dims slice_tup h' = Inr ds"
    and refuse: "\<forall>ds h. EinTup_set_dims slice_tup ds h = (Inl (RuntimeError SetDimsOnShadow), h)"
    by blast+
  from set obtain h' where "EinTup_set_dims batch_tup [2, 3] slice_store = (Inr (), h')"
    and "EinTup_dims slice_tup h' = Inr [2, 3]"
    by blast
  then show ?thesis
    using same refuse by simp
qed

text \<open>
  C7. \<open>set_dim\<close> has no primary check: on a shadow \<open>sh\<close> of \<open>p\<close> whose dims are set
  to rank \<open>k\<close>, \<open>sh.set_dim(i, v)\<close> succeeds for every valid Python index
  (\<open>-k \<le> i < k\<close>, in particular \<open>0 \<le> i < k\<close>) and writes the shared Shape, so that
  \<open>p.dims()[i]\<close> is \<open>v\<close> afterwards and the other axes are unchanged.
\<close>

theorem shadow_set_dim:
  assumes "EinTup_init sn (Some p) h0 = (sh, h1)"
      and "EinTup_dims sh h = Inr ds"
      and "- int (length ds) \<le> i" and "i < int (length ds)"
  shows "\<exists>h'. set_dim sh i v h = (Inr (), h') \<and>
              EinTup_dims p h' = Inr (ds[nat (if i < 0 then int (length ds) + i else i) := v]) \<and>
              (case EinTup_dims p h' of Inl e \<Rightarrow> False | Inr ds' \<Rightarrow> list_getitem ds' i = Inr v)"
proof -
  from assms(1) have sh: "shape sh = shape p"
    by (auto simp: EinTup_init_def)
  from assms(2) have ds: "dims (cells h (shape p)) = Some ds"
    by (auto simp: EinTup_dims_def Shape_get_def sh split: option.splits)
  show ?thesis
    using assms(3,4) ds sh
    by (auto simp: set_dim_def Shape_set_elem_def list_setitem_def list_getitem_def norm_index_def
                   EinTup_dims_def Shape_get_def)
qed

theorem shadow_set_dim_witness:
  "set_dim slice_tup 1 7 (snd (EinTup_set_dims batch_tup [2, 3] slice_store))
     = (Inr (), snd (EinTup_set_dims batch_tup [2, 7] slice_store)) \<and>
   EinTup_dims batch_tup (snd (set_dim slice_tup 1 7 (snd (EinTup_set_dims batch_tup [2, 3] slice_store))))
     = Inr [2, 7]"
proof -
  let ?h = "snd (EinTup_set_dims batch_tup [2, 3] slice_store)"
  have b: "EinTup_init ''slice'' (Some batch_tup) batch_store = (slice_tup, slice_store)"
    by (simp add: slice_tup_def slice_store_def)
  have d: "EinTup_dims slice_tup ?h = Inr [2, 3]"
    by (simp add: example_tups EinTup_set_dims_def EinTup_dims_def Shape_get_def Shape_set_def)
  from shadow_set_dim [OF b d, of 1 7]
  obtain h' where "set_dim slice_tup 1 7 ?h = (Inr (), h')" and "EinTup_dims batch_tup h' = Inr [2, 7]"
    by auto
  moreover have "set_dim slice_tup 1 7 ?h = (Inr (), snd (EinTup_set_dims batch_tup [2, 7] slice_store))"
    by (simp add: example_tups set_dim_def Shape_set_elem_def list_setitem_def norm_index_def EinTup_set_dims_def
                  Shape_set_def)
  ultimately show ?thesis
    by simp
qed

text \<open>
  C9, as the code has it. For dims that are set to integers of at most 64 bits
  (\<open>-2^63 \<le> d < 2^63\<close>), \<open>nelem\<close> is the product of the dims computed in \<open>np.int32\<close>:
  the mathematical product reduced to 32-bit two's complement. It is the exact product
  whenever that lies in \<open>[-2^31, 2^31)\<close>, and 1 for a rank-0 group.
\<close>

theorem nelem_int32:
  assumes "EinTup_dims t h = Inr ds"
      and "\<forall>d \<in> set ds. - (2 ^ 63) \<le> d \<and> d < 2 ^ 63"
  shows "\<exists>w. nelem t h = Inr w \<and> sint w = signed_take_bit 31 (prod_list ds) \<and>
             (- (2 ^ 31) \<le> prod_list ds \<and> prod_list ds < 2 ^ 31 \<longrightarrow> sint w = prod_list ds) \<and>
             (ds = [] \<longrightarrow> sint w = 1)"
proof -
  have w: "nelem t h = Inr (word_of_int (prod_list ds))"
    using assms by (simp add: nelem_def np_prod_int32_eq)
  have s: "sint (word_of_int (prod_list ds) :: 32 word) = signed_take_bit 31 (prod_list ds)"
    by (simp add: sint_sbintrunc')
  have "signed_take_bit 31 (prod_list ds) = prod_list ds"
    if "- (2 ^ 31) \<le> prod_list ds" "prod_list ds < 2 ^ 31"
    using that by (simp add: signed_take_bit_int_eq_self)
  moreover have "signed_take_bit 31 (prod_list ds) = 1" if "ds = []"
    using that by simp
  ultimately show ?thesis
    using w s by auto
qed

theorem nelem_int32_witness:
  "EinTup_dims batch_tup (snd (EinTup_set_dims batch_tup [5, 99, 7] batch_store)) = Inr [5, 99, 7] \<and>
   (\<exists>w. nelem batch_tup (snd (EinTup_set_dims batch_tup [5, 99, 7] batch_store)) = Inr w \<and>
        sint w = 3465)"
proof -
  have d: "EinTup_dims batch_tup (snd (EinTup_set_dims batch_tup [5, 99, 7] batch_store)) = Inr [5, 99, 7]"
    by (simp add: example_tups EinTup_set_dims_def EinTup_dims_def Shape_get_def Shape_set_def)
  have b: "\<forall>d \<in> set [5, 99, 7 :: int]. - (2 ^ 63) \<le> d \<and> d < 2 ^ 63"
    by simp
  from nelem_int32 [OF d b] show ?thesis
    using d by auto
qed

text \<open>
  C9 as stated fails inside the default search range: five axes of extent 99 have the
  product 9509900499, and \<open>nelem\<close> returns 919965907.
\<close>

theorem nelem_overflow_counterexample:
  "EinTup_dims batch_tup (snd (EinTup_set_dims batch_tup [99, 99, 99, 99, 99] batch_store))
     = Inr [99, 99, 99, 99, 99] \<and>
   map_sum id sint (nelem batch_tup (snd (EinTup_set_dims batch_tup [99, 99, 99, 99, 99] batch_store)))
     = Inr 919965907 \<and>
   prod_list [99, 99, 99, 99, 99] = (9509900499 :: int)"
  by (simp add: example_tups EinTup_set_dims_def EinTup_dims_def Shape_get_def Shape_set_def
                nelem_def np_prod_int32_def)

text \<open>
  C10. Iterating a group whose dims are set (to non-negative extents) produces the list
  \<open>ndindex\<close> of its dims and stops; a further iteration request, on the group as the
  first one left it, produces the same list again. That list has one entry per element,
  consists of exactly the multi-indices below the dims, and is strictly increasing in
  the lexicographic order, which is row-major order.
\<close>

theorem iterate_row_major:
  assumes "EinTup_dims t h = Inr ds" and "\<forall>d \<in> set ds. 0 \<le> d"
  shows "\<exists>t'. iterate t h = (Inr (ndindex (map nat ds)), t') \<and>
              iterate t' h = (Inr (ndindex (map nat ds)), t') \<and>
              length (ndindex (map nat ds)) = prod_list (map nat ds) \<and>
              set (ndindex (map nat ds)) =
                {ix. length ix = length ds \<and> (\<forall>k < length ds. int (ix ! k) < ds ! k)} \<and>
              sorted_wrt (\<lambda>a b. (a, b) \<in> lexord {(x, y). x < y}) (ndindex (map nat ds))"
proof -
  let ?ix = "ndindex (map nat ds)"
  let ?t1 = "EinTup (name t) (shadow_of t) (shape t) (Some ?ix) (val t)"
  let ?t' = "EinTup (name t) (shadow_of t) (shape t) (Some [])
               (if ?ix = [] then val t else Some (last ?ix))"
  have nn: "\<not> list_ex (\<lambda>d. d < 0) ds"
    using assms(2) by (auto simp: list_ex_iff)
  have it: "EinTup_iter t h = Inr ?t1"
    using assms(1) nn by (simp add: EinTup_iter_def np_ndindex_def)
  have d1: "drain ?t1 = (Inr ?ix, ?t')"
    by (simp add: drain_EinTup)
  have first: "iterate t h = (Inr ?ix, ?t')"
    by (simp add: iterate_def it d1)
  have dims': "EinTup_dims ?t' h = Inr ds"
    using assms(1) by (simp add: EinTup_dims_def)
  let ?t2 = "EinTup (name t) (shadow_of t) (shape t) (Some ?ix) (val ?t')"
  have it': "EinTup_iter ?t' h = Inr ?t2"
    using dims' nn by (simp add: EinTup_iter_def np_ndindex_def)
  have d2: "drain ?t2 = (Inr ?ix, ?t')"
    by (simp add: drain_EinTup)
  have again: "iterate ?t' h = (Inr ?ix, ?t')"
    by (simp add: iterate_def it' drain_EinTup)
  have "(\<forall>k < length ds. ix ! k < map nat ds ! k) \<longleftrightarrow> (\<forall>k < length ds. int (ix ! k) < ds ! k)" for ix
    using assms(2) by (auto simp: nat_less_iff zless_nat_eq_int_zless)
  then have members: "set ?ix = {ix. length ix = length ds \<and> (\<forall>k < length ds. int (ix ! k) < ds ! k)}"
    by (simp add: set_ndindex)
  show ?thesis
    using first again members length_ndindex [of "map nat ds"] sorted_ndindex [of "map nat ds"]
    by blast
qed

theorem iterate_row_major_witness:
  "EinTup_dims batch_tup (snd (EinTup_set_dims batch_tup [2, 3] batch_store)) = Inr [2, 3] \<and>
   (\<exists>t'. iterate batch_tup (snd (EinTup_set_dims batch_tup [2, 3] batch_store))
           = (Inr [[0, 0], [0, 1], [0, 2], [1, 0], [1, 1], [1, 2]], t') \<and>
         iterate t' (snd (EinTup_set_dims batch_tup [2, 3] batch_store))
           = (Inr [[0, 0], [0, 1], [0, 2], [1, 0], [1, 1], [1, 2]], t'))"
proof -
  let ?h = "snd (EinTup_set_dims batch_tup [2, 3] batch_store)"
  have d: "EinTup_dims batch_tup ?h = Inr [2, 3]"
    by (simp add: example_tups EinTup_set_dims_def EinTup_dims_def Shape_get_def Shape_set_def)
  have nn: "\<forall>d \<in> set [2, 3 :: int]. 0 \<le> d"
    by simp
  have ix: "ndindex (map nat [2, 3]) = [[0, 0], [0, 1], [0, 2], [1, 0], [1, 1], [1, 2]]"
    by (simp add: upt_rec)
  from iterate_row_major [OF d nn] show ?thesis
    unfolding ix using d by blast
qed

section \<open>Properties of the rank search\<close>

text \<open>
  C4, as the code has it. With exactly two primary groups \<open>p\<close> and \<open>q\<close> (in registry
  order), \<open>min_dim < max_dim\<close> and constraints whose value is determined by the two
  ranks, \<open>gen_shapes\<close> runs through all of \<open>{0..9} \<times> {0..9}\<close> in row-major order and
  yields exactly the rank maps whose ranks every constraint accepts, in that order and
  without raising: 100 of them without constraints, and 90 with one constraint that
  rejects rank 0 of one group (either one).
\<close>

theorem gen_shapes_rank_search:
  assumes tp: "two_primary rt p q" and mm: "min_dim rt < max_dim rt"
      and cs: "constraints rt = Some cons"
      and ranks: "\<forall>c \<in> set cons. \<forall>r i j. tups r = tups rt \<and> EinTup_rank p (shapes r) = Inr i \<and>
                  EinTup_rank q (shapes r) = Inr j \<longrightarrow> con_value X c r = Inr (accept c i j)"
  shows "(\<exists>rt'. gen_shapes X rt =
           (map (\<lambda>(i, j). [(name p, i), (name q, j)])
                (filter (\<lambda>(i, j). list_all (\<lambda>c. accept c i j) cons)
                        (List.product [0..<10] [0..<10])), None, rt')) \<and>
         (cons = [] \<longrightarrow> length (fst (gen_shapes X rt)) = 100) \<and>
         (\<forall>c. cons = [c] \<and> (\<forall>i j. accept c i j = (i \<noteq> 0)) \<longrightarrow> length (fst (gen_shapes X rt)) = 90) \<and>
         (\<forall>c. cons = [c] \<and> (\<forall>i j. accept c i j = (j \<noteq> 0)) \<longrightarrow> length (fst (gen_shapes X rt)) = 90)"
proof -
  let ?all = "List.product [0..<10] [0..<(10::nat)]"
  let ?f = "\<lambda>(i, j). [(name p, i), (name q, j)]"
  have acc: "con_value X c r = Inr (accept c i j)"
    if "c \<in> set cons" "tups r = tups rt" "EinTup_rank p (shapes r) = Inr i"
       "EinTup_rank q (shapes r) = Inr j" for c r i j
    using ranks that by blast
  have "\<exists>rt'. gen_shapes X rt =
      (map ?f (filter (\<lambda>(i, j). list_all (\<lambda>c. accept c i j) cons) ?all), None, rt')"
    by (rule gen_shapes_two_primary [where accept = accept, OF _ tp mm cs]) (rule acc)
  then obtain rt' where g: "gen_shapes X rt =
      (map ?f (filter (\<lambda>(i, j). list_all (\<lambda>c. accept c i j) cons) ?all), None, rt')"
    by blast
  then have l: "length (fst (gen_shapes X rt)) =
      length (map ?f (filter (\<lambda>(i, j). list_all (\<lambda>c. accept c i j) cons) ?all))"
    by (simp only: fst_conv)
  have a: "length (fst (gen_shapes X rt)) = 100" if "cons = []"
    unfolding l that len_unconstrained by (rule count_all)
  have b: "length (fst (gen_shapes X rt)) = 90" if "cons = [c]" "\<forall>i j. accept c i j = (i \<noteq> 0)" for c
  proof -
    have "(\<lambda>(i, j). accept c i j) = (\<lambda>(i, j). i \<noteq> 0)"
      using that(2) by (simp add: fun_eq_iff)
    then show ?thesis
      unfolding l that(1) len_single by (simp only: count_first_nonzero)
  qed
  have c: "length (fst (gen_shapes X rt)) = 90" if "cons = [c]" "\<forall>i j. accept c i j = (j \<noteq> 0)" for c
  proof -
    have "(\<lambda>(i, j). accept c i j) = (\<lambda>(i, j). j \<noteq> 0)"
      using that(2) by (simp add: fun_eq_iff)
    then show ?thesis
      unfolding l that(1) len_single by (simp only: count_second_nonzero)
  qed
  show ?thesis
    using g a b c by blast
qed

theorem gen_shapes_rank_search_witness:
  "two_primary (two_groups\<lparr>constraints := Some [''slice'']\<rparr>) batch_tup slice2 \<and>
   min_dim (two_groups\<lparr>constraints := Some [''slice'']\<rparr>)
     < max_dim (two_groups\<lparr>constraints := Some [''slice'']\<rparr>) \<and>
   length (fst (gen_shapes rank_gate (two_groups\<lparr>constraints := Some [''slice'']\<rparr>))) = 90"
proof -
  let ?rt = "two_groups\<lparr>constraints := Some [''slice'']\<rparr>"
  have mm: "min_dim ?rt < max_dim ?rt"
    by (simp add: two_groups_fields)
  have cs: "constraints ?rt = Some [''slice'']"
    by simp
  have ranks: "\<forall>c \<in> set [''slice'']. \<forall>r i j. tups r = tups ?rt \<and> EinTup_rank batch_tup (shapes r) = Inr i \<and>
                  EinTup_rank slice2 (shapes r) = Inr j \<longrightarrow> con_value rank_gate c r = Inr (j \<noteq> 0)"
    using rank_gate_slice by simp
  from gen_shapes_rank_search [where accept = "\<lambda>c i j. j \<noteq> 0", OF two_groups_primary mm cs ranks]
  have "length (fst (gen_shapes rank_gate ?rt)) = 90"
    by blast
  then show ?thesis
    using two_groups_primary mm by blast
qed

text \<open>
  C4 as stated gives 99 for a constraint that rejects rank 0 of one group. Rank 0 of
  \<open>batch\<close> occurs in ten combinations: with the constraint "the rank of \<open>batch\<close> is
  not 0" the search yields 90 rank maps.
\<close>

theorem gen_shapes_rank_zero_counterexample:
  "length (fst (gen_shapes rank_gate (two_groups\<lparr>constraints := Some [''batch'']\<rparr>))) = 90 \<and>
   length (fst (gen_shapes rank_gate (two_groups\<lparr>constraints := Some [''batch'']\<rparr>))) \<noteq> 99"
proof -
  let ?rt = "two_groups\<lparr>constraints := Some [''batch'']\<rparr>"
  let ?all = "List.product [0..<10] [0..<(10::nat)]"
  have acc: "\<And>c r i j. c \<in> set [''batch''] \<Longrightarrow> tups r = tups ?rt \<Longrightarrow> EinTup_rank batch_tup (shapes r) = Inr i \<Longrightarrow>
                  EinTup_rank slice2 (shapes r) = Inr j \<Longrightarrow> con_value rank_gate c r = Inr (i \<noteq> 0)"
    using rank_gate_batch by simp
  have mm: "min_dim ?rt < max_dim ?rt"
    by (simp add: two_groups_fields)
  have cs: "constraints ?rt = Some [''batch'']"
    by simp
  have "\<exists>rt'. gen_shapes rank_gate ?rt =
      (map (\<lambda>(i, j). [(name batch_tup, i), (name slice2, j)])
           (filter (\<lambda>(i, j). list_all (\<lambda>c. i \<noteq> 0) [''batch'']) ?all), None, rt')"
    by (rule gen_shapes_two_primary [where accept = "\<lambda>c i j. i \<noteq> 0", OF _ two_groups_primary mm cs])
       (rule acc)
  then obtain rt' where "gen_shapes rank_gate ?rt =
      (map (\<lambda>(i, j). [(name batch_tup, i), (name slice2, j)])
           (filter (\<lambda>(i, j). list_all (\<lambda>c. i \<noteq> 0) [''batch'']) ?all), None, rt')"
    by blast
  then have "length (fst (gen_shapes rank_gate ?rt)) =
      length (map (\<lambda>(i, j). [(name batch_tup, i), (name slice2, j)])
           (filter (\<lambda>(i, j). list_all (\<lambda>c. i \<noteq> 0) [''batch'']) ?all))"
    by (simp only: fst_conv)
  also have "\<dots> = length (filter (\<lambda>(i, j). i \<noteq> 0) ?all)"
    by (rule len_single [where accept = "\<lambda>c i j. i \<noteq> 0"])
  also have "\<dots> = 90"
    by (rule count_first_nonzero)
  finally show ?thesis
    by simp
qed

section \<open>Properties of loading and evaluation\<close>

text \<open>
  C5. For a text with exactly three sections (no constraints section), whatever the
  grammar, a load that succeeds has parsed the empty string in constraint mode and
  holds that one node as its constraints: \<open>''.strip().split('\n')\<close> is \<open>['']\<close>, so
  the list of constraint nodes is not empty. (A grammar that refuses the empty string
  makes the load fail.) The only assumption is that \<open>post_parse_init\<close> does not
  reassign \<open>constraints\<close>.
\<close>

theorem absent_constraints_parsed:
  assumes sec: "re_split_blank (strip content) = [s1, s2, s3]"
      and frame: "\<forall>n r r'. post_parse_init X n r = Inr r' \<longrightarrow> constraints r' = constraints r"
      and ok: "parse_et_file X content rt = Inr rt'"
  shows "\<exists>c r r'. parse X ConstraintMode [] r = Inr (c, r') \<and> constraints rt' = Some [c] \<and>
                   constraints rt' \<noteq> Some []"
proof -
  from absent_constraints_one_node [OF sec frame ok]
  obtain c r r' where "parse X ConstraintMode [] r = Inr (c, r')" and "constraints rt' = Some [c]"
    by blast
  then show ?thesis
    by (intro exI [of _ c] exI [of _ r] exI [of _ r']) simp
qed

theorem absent_constraints_parsed_witness:
  "re_split_blank (strip three_sections) = [''out[b] = in[b]'', ''tf.identity(in)'', ''out''] \<and>
   parse_et_file echo three_sections fresh_runtime = Inr loaded_runtime \<and>
   constraints loaded_runtime = Some [(ConstraintMode, [])]"
proof -
  have frame: "\<forall>n r r'. post_parse_init echo n r = Inr r' \<longrightarrow> constraints r' = constraints r"
    by (simp add: echo_def)
  from absent_constraints_parsed [OF three_sections_split frame load_three_sections']
  obtain c r r' where "parse echo ConstraintMode [] r = Inr (c, r')"
    and "constraints loaded_runtime = Some [c]"
    by blast
  then have "constraints loaded_runtime = Some [(ConstraintMode, [])]"
    by (auto simp: echo_def)
  then show ?thesis
    using three_sections_split load_three_sections' by simp
qed

text \<open>
  C1. \<open>parse_et_file\<close> stores the output arguments in \<open>out_args\<close>; \<open>run\<close> reads
  \<open>outputs\<close>, which nothing in the class assigns. For a Runtime loaded from a fresh
  one by collaborators that do not assign \<open>outputs\<close> either, \<open>run\<close> never returns a
  set of results: it returns \<open>None\<close> when a constraint is false, and when the
  constraints hold and the statements have been evaluated in order, it raises
  AttributeError.
\<close>

theorem run_reads_missing_outputs:
  assumes p: "\<forall>m s r n r'. parse X m s r = Inr (n, r') \<longrightarrow> outputs r' = outputs r"
      and po: "\<forall>s r a r'. parse_output X s r = Inr (a, r') \<longrightarrow> outputs r' = outputs r"
      and pp: "\<forall>n r r'. post_parse_init X n r = Inr r' \<longrightarrow> outputs r' = outputs r"
      and ev: "\<forall>n r r'. evaluate X n r = Inr r' \<longrightarrow> outputs r' = outputs r"
      and ok: "parse_et_file X content (Runtime_init mn mx src) = Inr rt"
  shows "(\<forall>res. fst (run X rt) \<noteq> Inr (Some res)) \<and>
         (\<forall>cons. constraints rt = Some cons \<and> all_values X cons rt = Inr False \<longrightarrow>
              run X rt = (Inr None, rt)) \<and>
         (\<forall>cons sts rt1. constraints rt = Some cons \<and> all_values X cons rt = Inr True \<and>
              statements rt = Some sts \<and> evaluate_all X sts rt = (None, rt1) \<longrightarrow>
              run X rt = (Inl (AttributeError ''outputs''), rt1))"
proof -
  have none: "outputs rt = None"
    using parse_et_file_outputs [OF p po pp ok] by (simp add: Runtime_init_def)
  show ?thesis
    using run_without_outputs [OF ev none] run_constraint_false [of rt _ X] by blast
qed

theorem run_reads_missing_outputs_witness:
  "parse_et_file echo three_sections (Runtime_init 5 100 (\<lambda>k. k)) = Inr loaded_runtime \<and>
   run echo loaded_runtime = (Inl (AttributeError ''outputs''), loaded_runtime)"
proof -
  have ok: "parse_et_file echo three_sections (Runtime_init 5 100 (\<lambda>k. k)) = Inr loaded_runtime"
    using load_three_sections' by (simp add: fresh_runtime_def)
  have p: "\<forall>m s r n r'. parse echo m s r = Inr (n, r') \<longrightarrow> outputs r' = outputs r"
    and po: "\<forall>s r a r'. parse_output echo s r = Inr (a, r') \<longrightarrow> outputs r' = outputs r"
    and pp: "\<forall>n r r'. post_parse_init echo n r = Inr r' \<longrightarrow> outputs r' = outputs r"
    and ev: "\<forall>n r r'. evaluate echo n r = Inr r' \<longrightarrow> outputs r' = outputs r"
    by (auto simp: echo_def)
  have c: "constraints loaded_runtime = Some [(ConstraintMode, [])]"
    and s: "statements loaded_runtime = Some [(StatementMode, ''out[b] = in[b]'')]"
    by (simp_all add: loaded_runtime_def)
  have a: "all_values echo [(ConstraintMode, [])] loaded_runtime = Inr True"
    by (simp add: echo_def)
  have e: "evaluate_all echo [(StatementMode, ''out[b] = in[b]'')] loaded_runtime = (None, loaded_runtime)"
    by (simp add: echo_def)
  from run_reads_missing_outputs [OF p po pp ev ok] c s a e
  have "run echo loaded_runtime = (Inl (AttributeError ''outputs''), loaded_runtime)"
    by blast
  then show ?thesis
    using ok by simp
qed

section \<open>Properties of the instrumentation wrapper\<close>

text \<open>
  C2. The wrapper never reads \<open>config.validate\<close>. Whatever \<open>validate_schema\<close> has set,
  a call that binds does the same thing, up to the untouched configuration: in
  particular, after \<open>validate_schema(False)\<close> it still calls the schema's input
  validation \<open>evaluate()\<close>, and its output validation \<open>validate()\<close> whenever it returns
  a value, which it does whenever the operation returns and the prints go through.
\<close>

theorem wrapper_ignores_toggle:
  assumes "sig_bind func args = Inr b"
  shows "wrapper P func args (w\<lparr>cfg := validate_schema flag (cfg w)\<rparr>) =
           (fst (wrapper P func args w),
            (snd (wrapper P func args w))\<lparr>cfg := validate_schema flag (cfg w)\<rparr>) \<and>
         Evaluate \<in> set (trace (snd (wrapper P func args (w\<lparr>cfg := validate_schema False (cfg w)\<rparr>)))) \<and>
         (\<forall>r. fst (wrapper P func args (w\<lparr>cfg := validate_schema False (cfg w)\<rparr>)) = Inr r \<longrightarrow>
              Validate \<in> set (trace (snd (wrapper P func args (w\<lparr>cfg := validate_schema False (cfg w)\<rparr>))))) \<and>
         (\<forall>r. call func args = Inr r \<and> (\<forall>m. stdout w m = None) \<longrightarrow>
              fst (wrapper P func args (w\<lparr>cfg := validate_schema False (cfg w)\<rparr>)) = Inr r \<and>
              Validate \<in> set (trace (snd (wrapper P func args (w\<lparr>cfg := validate_schema False (cfg w)\<rparr>)))))"
proof -
  let ?w = "w\<lparr>cfg := validate_schema False (cfg w)\<rparr>"
  obtain mid where m: "trace (snd (check_inputs P b ?w)) = trace ?w @ [Init b, Evaluate] @ mid"
    using check_inputs_trace [of P b ?w] by blast
  obtain post where p: "trace (snd (wrapper P func args ?w)) = trace (snd (check_inputs P b ?w)) @ post"
    using wrapper_after_inputs [OF assms, of P ?w] by blast
  have ev: "Evaluate \<in> set (trace (snd (wrapper P func args ?w)))"
    unfolding p m by simp
  have ret: "Validate \<in> set (trace (snd (wrapper P func args ?w)))"
    if "fst (wrapper P func args ?w) = Inr r" for r
    using wrapper_returns [OF assms that] by blast
  have quiet: "fst (wrapper P func args ?w) = Inr r \<and> Validate \<in> set (trace (snd (wrapper P func args ?w)))"
    if c: "call func args = Inr r" and q: "\<forall>m. stdout w m = None" for r
  proof -
    have "\<forall>m. stdout ?w m = None"
      using q by simp
    then have "fst (check_inputs P b ?w) = None"
      by (rule check_inputs_quiet)
    then have ci: "check_inputs P b ?w = (None, snd (check_inputs P b ?w))"
      by (metis prod.collapse)
    have "fst (wrapper P func args ?w) = Inr r"
      using wrapper_cases(4) [OF assms ci c] by simp
    then show ?thesis
      using ret by blast
  qed
  show ?thesis
    using ev ret quiet
          wrapper_cfg [where P = P and func = func and args = args and w = w
                         and c = "validate_schema flag (cfg w)"]
    by blast
qed

theorem wrapper_ignores_toggle_witness:
  "validate (cfg quiet_world) = False \<and>
   sig_bind identity_op ''x'' = Inr ''x'' \<and>
   fst (wrapper tally identity_op ''x'' quiet_world) = Inr ''x'' \<and>
   trace (snd (wrapper tally identity_op ''x'' quiet_world)) =
     [Init ''x'', Evaluate, Print (InputPassed ''tf.nn.convolution''),
      SetOutputs ''x'', Validate, Report]"
proof -
  have b: "sig_bind identity_op ''x'' = Inr ''x''"
    by (simp add: identity_op_def)
  have q: "quiet_world\<lparr>cfg := validate_schema False (cfg quiet_world)\<rparr> = quiet_world"
    by (simp add: quiet_world_def validate_schema_def config_init_def)
  have c: "call identity_op ''x'' = Inr ''x''"
    by (simp add: identity_op_def)
  have s: "\<forall>m. stdout quiet_world m = None"
    by (simp add: quiet_world_def)
  from wrapper_ignores_toggle [OF b, where P = tally and w = quiet_world and flag = False] c s
  have "fst (wrapper tally identity_op ''x'' quiet_world) = Inr ''x''"
    and "Evaluate \<in> set (trace (snd (wrapper tally identity_op ''x'' quiet_world)))"
    and "Validate \<in> set (trace (snd (wrapper tally identity_op ''x'' quiet_world)))"
    unfolding q by blast+
  moreover have "trace (snd (wrapper tally identity_op ''x'' quiet_world)) =
     [Init ''x'', Evaluate, Print (InputPassed ''tf.nn.convolution''),
      SetOutputs ''x'', Validate, Report]"
    using wrapper_cases(4) [OF b quiet_inputs c] by simp
  ultimately show ?thesis
    using b by (simp add: quiet_world_def validate_schema_def config_init_def)
qed




section \<open>Properties of tensor equality\<close>

text \<open>
  C3. For the \<open>int32\<close> tensors \<open>[2147483647]\<close> and \<open>[-1]\<close>, of equal shape and with
  different elements, \<open>equal_tens\<close> returns true for every tolerance: the tolerance is
  forced to 0, the difference wraps around to \<open>-2147483648\<close>, and the absolute value of
  that is again \<open>-2147483648\<close>, which is not greater than 0. For a \<open>bool\<close> tensor
  compared with itself it returns nothing: the subtraction raises.
\<close>

theorem equal_tens_int32_wraps:
  "tshape (int_max :: 'f tensor) = tshape (minus_one :: 'f tensor) \<and>
   \<not> is_floating (dtype (int_max :: 'f tensor)) \<and>
   \<not> is_floating (dtype (minus_one :: 'f tensor)) \<and>
   elems (int_max :: 'f tensor) \<noteq> elems (minus_one :: 'f tensor) \<and>
   equal_tens F int_max minus_one eps = Inr True \<and>
   equal_tens F truth truth eps = Inl InvalidArgumentError"
  by (simp add: equal_tens_def tf_sub_def tf_abs_def tf_less_equal_def tf_reduce_all_def
                int_max_def minus_one_def truth_def dtype_def is_floating_def)

end
